theory Spec2Isabelle
  imports Main "HOL-Library.AList" "HOL-Library.List_Lexorder" "HOL-Library.Product_Lexorder"
begin

section \<open>Python strings\<close>

text \<open>
  A Python \<open>str\<close> is a sequence of Unicode code points, and \<open>len\<close>, slicing and
  comparison count code points. A string is therefore a list of code points; \<open>ustr\<close>
  reads an ASCII literal as such a list.
\<close>

type_synonym pystr = "nat list"

definition ustr :: "string \<Rightarrow> pystr" where
  "ustr s = map of_char s"

text \<open>
  The white space of \<open>str.strip()\<close>, \<open>str.rstrip()\<close> and of the regular expression
  classes \<open>\s\<close> and \<open>\S\<close> on \<open>str\<close> patterns: the code points for which
  \<open>str.isspace\<close> holds.
\<close>

definition isspace :: "nat \<Rightarrow> bool" where
  "isspace c \<longleftrightarrow>
     (9 \<le> c \<and> c \<le> 13) \<or> (28 \<le> c \<and> c \<le> 32) \<or> c = 133 \<or> c = 160 \<or> c = 5760 \<or>
     (8192 \<le> c \<and> c \<le> 8202) \<or> c = 8232 \<or> c = 8233 \<or> c = 8239 \<or> c = 8287 \<or> c = 12288"

definition lstrip_with :: "(nat \<Rightarrow> bool) \<Rightarrow> pystr \<Rightarrow> pystr" where
  "lstrip_with p s = dropWhile p s"

definition rstrip_with :: "(nat \<Rightarrow> bool) \<Rightarrow> pystr \<Rightarrow> pystr" where
  "rstrip_with p s = rev (dropWhile p (rev s))"

definition strip_with :: "(nat \<Rightarrow> bool) \<Rightarrow> pystr \<Rightarrow> pystr" where
  "strip_with p s = rstrip_with p (lstrip_with p s)"

text \<open>\<open>s.strip()\<close> and \<open>s.rstrip()\<close>.\<close>

definition strip :: "pystr \<Rightarrow> pystr" where
  "strip s = strip_with isspace s"

definition rstrip :: "pystr \<Rightarrow> pystr" where
  "rstrip s = rstrip_with isspace s"

text \<open>\<open>s.strip(chars)\<close>: removes leading and trailing code points that occur in \<open>chars\<close>.\<close>

definition strip_chars :: "pystr \<Rightarrow> pystr \<Rightarrow> pystr" where
  "strip_chars chars s = strip_with (\<lambda>c. c \<in> set chars) s"

text \<open>\<open>s.endswith(suffix)\<close>.\<close>

definition endswith :: "pystr \<Rightarrow> pystr \<Rightarrow> bool" where
  "endswith s suffix \<longleftrightarrow>
     length suffix \<le> length s \<and> drop (length s - length suffix) s = suffix"

text \<open>\<open>''.join(parts)\<close>.\<close>

definition join :: "pystr list \<Rightarrow> pystr" where
  "join parts = concat parts"

text \<open>
  \<open>re.split(r'(\S+)', s)\<close>: the maximal runs of white space and of other code points,
  alternating, the first and the last piece always a (possibly empty) run of white space.
  \<open>re_split_from cur in_tok rest\<close> scans \<open>rest\<close> with the piece \<open>cur\<close> open, which is a
  token when \<open>in_tok\<close> holds and white space otherwise.
\<close>

fun re_split_from :: "pystr \<Rightarrow> bool \<Rightarrow> pystr \<Rightarrow> pystr list" where
  "re_split_from cur in_tok [] = (if in_tok then [cur, []] else [cur])"
| "re_split_from cur in_tok (c # cs) =
     (if isspace c = in_tok then cur # re_split_from [c] (\<not> in_tok) cs
      else re_split_from (cur @ [c]) in_tok cs)"

definition re_split :: "pystr \<Rightarrow> pystr list" where
  "re_split s = re_split_from [] False s"

section \<open>Python lists and dictionaries\<close>

text \<open>\<open>xs.index(x)\<close>: the first position of \<open>x\<close>; \<open>None\<close> stands for the \<open>ValueError\<close>.\<close>

fun index_of :: "'a list \<Rightarrow> 'a \<Rightarrow> nat option" where
  "index_of [] x = None"
| "index_of (y # ys) x = (if y = x then Some 0 else map_option Suc (index_of ys x))"

text \<open>\<open>xs[i:j]\<close> and \<open>xs[i:]\<close> for indices that are not negative.\<close>

definition slice :: "'a list \<Rightarrow> nat \<Rightarrow> nat \<Rightarrow> 'a list" where
  "slice xs i j = take (j - i) (drop i xs)"

definition slice_from :: "'a list \<Rightarrow> nat \<Rightarrow> 'a list" where
  "slice_from xs i = drop i xs"

text \<open>
  A \<open>dict\<close> keeps its keys in insertion order, and an assignment to a key that is present
  keeps the key's place: an association list under \<open>AList.update\<close>.
\<close>

type_synonym ('k, 'v) dict = "('k \<times> 'v) list"

definition dict_set :: "('k, 'v) dict \<Rightarrow> 'k \<Rightarrow> 'v \<Rightarrow> ('k, 'v) dict" where
  "dict_set d k v = AList.update k v d"

definition dict_get :: "('k, 'v) dict \<Rightarrow> 'k \<Rightarrow> 'v option" where
  "dict_get d k = map_of d k"

section \<open>The flag parser (lib.py)\<close>

text \<open>The value of a flag: \<open>False\<close>, \<open>True\<close> or the string the flag consumed.\<close>

datatype flag_value = FlagBool bool | FlagStr pystr

text \<open>The three markers of a flag: \<open>-\<close>, \<open>--\<close> and the em dash U+2014.\<close>

definition short_marker :: pystr where
  "short_marker = [45]"

definition long_marker :: pystr where
  "long_marker = [45, 45]"

definition emdash_marker :: pystr where
  "emdash_marker = [8212]"

text \<open>Lines 74 to 77: the flag terminator. Returns \<open>(params, end_params)\<close>.\<close>

definition split_terminator :: "pystr list \<Rightarrow> pystr list \<times> pystr list" where
  "split_terminator params =
     (case index_of params long_marker of
        None \<Rightarrow> (params, [])
      | Some i \<Rightarrow>
          ((take i params),
           (if i < length params - 1 then slice_from params (i + 1) else [])))"

text \<open>Lines 83 to 91: the position of one flag in the parameter list, if it has one.\<close>

definition flag_index :: "pystr list \<Rightarrow> pystr \<Rightarrow> nat option" where
  "flag_index params clean_flag =
     (if (short_marker @ clean_flag) \<in> set params
        then index_of params (short_marker @ clean_flag)
      else if (long_marker @ clean_flag) \<in> set params
        then index_of params (long_marker @ clean_flag)
      else if (emdash_marker @ clean_flag) \<in> set params
        then index_of params (emdash_marker @ clean_flag)
      else None)"

text \<open>
  Lines 80 to 92: the loop over the declared flags, on the state
  \<open>(final_flags, indices)\<close>.
\<close>

fun find_flags ::
  "pystr list \<Rightarrow> pystr list \<Rightarrow> (pystr, flag_value) dict \<times> (nat \<times> pystr) list \<Rightarrow>
   (pystr, flag_value) dict \<times> (nat \<times> pystr) list" where
  "find_flags params [] st = st"
| "find_flags params (flag # flags) (final_flags, indices) =
     (let clean_flag = strip_chars (ustr ''='') flag
      in case flag_index params clean_flag of
           None \<Rightarrow> find_flags params flags
                     (dict_set final_flags clean_flag (FlagBool False), indices)
         | Some index \<Rightarrow> find_flags params flags (final_flags, indices @ [(index, flag)]))"

text \<open>
  Line 119: the first parameter of the span that is not white space, with its position;
  the length of the span and \<open>None\<close> when there is none.
\<close>

fun first_arg :: "nat \<Rightarrow> pystr list \<Rightarrow> nat \<times> pystr option" where
  "first_arg j [] = (j, None)"
| "first_arg j (arg # args) =
     (if strip arg \<noteq> [] then (j, Some arg) else first_arg (Suc j) args)"

text \<open>
  Lines 104 to 131: the loop over the sorted indices, on the state
  \<open>(final_params, final_flags)\<close>. The tail of the list is \<open>indices[i + 1:]\<close>.
\<close>

fun build_flags ::
  "pystr list \<Rightarrow> (nat \<times> pystr) list \<Rightarrow> pystr list \<times> (pystr, flag_value) dict \<Rightarrow>
   pystr list \<times> (pystr, flag_value) dict" where
  "build_flags params [] st = st"
| "build_flags params ((index, flag) # rest) (final_params, final_flags) =
     (let flag_params =
            (if length params > index + 1 then
               (case rest of
                  (next_index, _) # _ \<Rightarrow> slice params (index + 1) next_index
                | [] \<Rightarrow> slice_from params (index + 1))
             else []);
          clean_flag = strip_chars (ustr ''='') flag
      in if endswith flag (ustr ''=='') then
           build_flags params rest
             (final_params, dict_set final_flags clean_flag (FlagStr (strip (join flag_params))))
         else if endswith flag (ustr ''='') then
           (let (j, arg) = first_arg 0 flag_params;
                flag_arg = (case arg of Some a \<Rightarrow> a | None \<Rightarrow> []);
                final_params' =
                  (if length flag_params > j + 1
                   then final_params @ [rstrip (join (slice_from flag_params (j + 1)))]
                   else final_params)
            in build_flags params rest
                 (final_params', dict_set final_flags clean_flag (FlagStr flag_arg)))
         else
           build_flags params rest
             (final_params @ [rstrip (join flag_params)],
              dict_set final_flags clean_flag (FlagBool True)))"

text \<open>\<open>flag_parser(args, flags)\<close>, returning \<open>(final_flags, remaining)\<close>.\<close>

definition flag_parser :: "pystr \<Rightarrow> pystr list \<Rightarrow> (pystr, flag_value) dict \<times> pystr" where
  "flag_parser args flags =
     (let (params, end_params) = split_terminator (re_split args);
          (final_flags0, indices0) = find_flags params flags ([], []);
          indices = sort indices0;
          final_params0 =
            (case indices of (first_index, _) # _ \<Rightarrow> slice params 0 first_index | [] \<Rightarrow> params);
          (final_params, final_flags) = build_flags params indices (final_params0, final_flags0)
      in (final_flags, strip (join (final_params @ end_params))))"

text \<open>
  The reading of the specification that the parser is compared with: the first position in
  the parameter list that holds the flag's marker in any of its three forms.
\<close>

fun earliest_marker :: "pystr list \<Rightarrow> pystr \<Rightarrow> nat option" where
  "earliest_marker [] clean_flag = None"
| "earliest_marker (p # ps) clean_flag =
     (if p = short_marker @ clean_flag \<or> p = long_marker @ clean_flag \<or>
         p = emdash_marker @ clean_flag
      then Some 0 else map_option Suc (earliest_marker ps clean_flag))"

section \<open>Exceptions\<close>

text \<open>
  The exceptions the command lifecycle tells apart. \<open>FailedCheck\<close> stores the check that
  failed; its handler reads the check's \<open>name\<close> and \<open>msg\<close> only, and these two are kept.
  \<open>SafeCancellation\<close> carries the name of its class, \<open>msg\<close> and \<open>details\<close>.
  \<open>CancelledError\<close> and \<open>KeyboardInterrupt\<close> derive from \<open>BaseException\<close>, the
  others from \<open>Exception\<close>; \<open>OtherException\<close> carries the one-line rendering of any
  other fault.
\<close>

datatype exn =
    FailedCheck pystr "pystr option"
  | SafeCancellation pystr "pystr option" "pystr option"
  | TimeoutError
  | CancelledError
  | KeyboardInterrupt
  | Forbidden
  | NotFound
  | OtherException pystr

text \<open>Whether \<open>except Exception\<close> catches the exception.\<close>

fun is_Exception :: "exn \<Rightarrow> bool" where
  "is_Exception CancelledError = False"
| "is_Exception KeyboardInterrupt = False"
| "is_Exception _ = True"

section \<open>Checks (Check.py)\<close>

text \<open>
  A check function is asynchronous: it may perform I/O, mutate the context it is given and
  raise. It takes the context \<open>ctx\<close> (with the arguments given to the check, which
  \<open>Check.run\<close> passes on unchanged) and a state \<open>'s\<close> that holds every object it can
  reach, and returns a boolean or an exception, and the state it leaves.
\<close>

datatype ('c, 's) check =
  Check (name: pystr) (msg: "pystr option") (check_func: "'c \<Rightarrow> 's \<Rightarrow> (exn + bool) \<times> 's")
        (parents: "('c, 's) check list") (required: "('c, 's) check list")

text \<open>
  \<open>Check.run\<close>, with its two loops: \<open>run_parents\<close> returns \<open>True\<close> when the loop over the
  parents returned \<open>True\<close> and \<open>False\<close> when it fell through; \<open>run_required\<close> returns
  \<open>False\<close> when the loop over the requirements returned \<open>False\<close> and \<open>True\<close> when it
  fell through.
\<close>

fun run :: "('c, 's) check \<Rightarrow> 'c \<Rightarrow> 's \<Rightarrow> (exn + bool) \<times> 's"
  and run_parents :: "('c, 's) check list \<Rightarrow> 'c \<Rightarrow> 's \<Rightarrow> (exn + bool) \<times> 's"
  and run_required :: "('c, 's) check list \<Rightarrow> 'c \<Rightarrow> 's \<Rightarrow> (exn + bool) \<times> 's" where
  "run (Check n m f ps rs) ctx s =
     (case run_parents ps ctx s of
        (Inl e, s1) \<Rightarrow> (Inl e, s1)
      | (Inr True, s1) \<Rightarrow> (Inr True, s1)
      | (Inr False, s1) \<Rightarrow>
          (case run_required rs ctx s1 of
             (Inl e, s2) \<Rightarrow> (Inl e, s2)
           | (Inr False, s2) \<Rightarrow> (Inr False, s2)
           | (Inr True, s2) \<Rightarrow> f ctx s2))"
| "run_parents [] ctx s = (Inr False, s)"
| "run_parents (c # cs) ctx s =
     (case run c ctx s of
        (Inl e, s1) \<Rightarrow> (Inl e, s1)
      | (Inr True, s1) \<Rightarrow> (Inr True, s1)
      | (Inr False, s1) \<Rightarrow> run_parents cs ctx s1)"
| "run_required [] ctx s = (Inr True, s)"
| "run_required (c # cs) ctx s =
     (case run c ctx s of
        (Inl e, s1) \<Rightarrow> (Inl e, s1)
      | (Inr False, s1) \<Rightarrow> (Inr False, s1)
      | (Inr True, s1) \<Rightarrow> run_required cs ctx s1)"

text \<open>
  \<open>Check.__call__\<close>: the decorator that runs the check before the function \<open>func\<close>, and
  raises \<open>FailedCheck\<close> of this check when it fails. \<open>fargs\<close> stands for the arguments of
  the decorated function after the context.
\<close>

definition check_decorator ::
  "('c, 's) check \<Rightarrow> ('c \<Rightarrow> 'a \<Rightarrow> 's \<Rightarrow> (exn + 'r) \<times> 's) \<Rightarrow> 'c \<Rightarrow> 'a \<Rightarrow> 's \<Rightarrow> (exn + 'r) \<times> 's" where
  "check_decorator self func ctx fargs s =
     (case run self ctx s of
        (Inl e, s1) \<Rightarrow> (Inl e, s1)
      | (Inr result, s1) \<Rightarrow>
          if \<not> result then (Inl (FailedCheck (name self) (msg self)), s1)
          else func ctx fargs s1)"

text \<open>
  \<open>all_return b cs ctx s\<close>: each check of \<open>cs\<close>, evaluated in order from the state \<open>s\<close>,
  returns \<open>b\<close>; the result is the state the last one leaves.
\<close>

fun all_return :: "bool \<Rightarrow> ('c, 's) check list \<Rightarrow> 'c \<Rightarrow> 's \<Rightarrow> 's option" where
  "all_return b [] ctx s = Some s"
| "all_return b (c # cs) ctx s =
     (case run c ctx s of
        (Inr r, s1) \<Rightarrow> if r = b then all_return b cs ctx s1 else None
      | (Inl e, s1) \<Rightarrow> None)"

text \<open>A check without parents and requirements whose function counts its calls.\<close>

abbreviation count_check :: "bool \<Rightarrow> (unit, nat) check" where
  "count_check b \<equiv> Check [] None (\<lambda>ctx k. (Inr b, Suc k)) [] []"

section \<open>Sterilising content (lib.py)\<close>

text \<open>
  \<open>s.replace(old, new)\<close> for a non-empty \<open>old\<close>: the occurrences of \<open>old\<close> are replaced
  from left to right, without overlap. \<open>replace_from old new skip s\<close> has \<open>skip\<close> code
  points of a replaced occurrence still to pass.
\<close>

fun replace_from :: "pystr \<Rightarrow> pystr \<Rightarrow> nat \<Rightarrow> pystr \<Rightarrow> pystr" where
  "replace_from old new skip [] = []"
| "replace_from old new (Suc k) (c # cs) = replace_from old new k cs"
| "replace_from old new 0 (c # cs) =
     (if take (length old) (c # cs) = old
      then new @ replace_from old new (length old - 1) cs
      else c # replace_from old new 0 cs)"

definition replace :: "pystr \<Rightarrow> pystr \<Rightarrow> pystr \<Rightarrow> pystr" where
  "replace s old new = replace_from old new 0 s"

text \<open>\<open>sub in s\<close> for strings.\<close>

fun contains :: "pystr \<Rightarrow> pystr \<Rightarrow> bool" where
  "contains [] sub \<longleftrightarrow> sub = []"
| "contains (c # cs) sub \<longleftrightarrow> take (length sub) (c # cs) = sub \<or> contains cs sub"

text \<open>The zero width space U+200B.\<close>

definition zwsp :: nat where
  "zwsp = 8203"

definition sterilise_content :: "pystr \<Rightarrow> pystr" where
  "sterilise_content content =
     (let content1 = replace content (ustr ''@everyone'') (ustr ''@'' @ [zwsp] @ ustr ''everyone'');
          content2 = replace content1 (ustr ''@here'') (ustr ''@'' @ [zwsp] @ ustr ''here'');
          asciimsg = filter (\<lambda>c. c < 128) content2
      in if contains asciimsg (ustr ''@everyone'') \<or> contains asciimsg (ustr ''@here'')
         then replace content2 (ustr ''@'') (ustr ''@'' @ [zwsp])
         else content2)"


section \<open>Messages, commands and modules\<close>

text \<open>
  A message of the platform, as far as the client reads it: its identity, its content,
  the identities of its channel, of its guild if it has one, and of its author.
\<close>

record message =
  msg_id :: nat
  msg_content :: pystr
  msg_channel :: nat
  msg_guild :: "nat option"
  msg_author :: nat

text \<open>
  A \<open>Command\<close>. Its function \<open>func\<close> and its module are objects: \<open>cmd_func\<close> is the key
  of the function in the program below, \<open>cmd_module\<close> the address of the module.
\<close>

record command =
  cmd_name :: pystr
  cmd_func :: nat
  cmd_module :: nat
  cmd_handle_edits :: bool
  cmd_aliases :: "pystr list"
  cmd_flags :: "pystr list"
  cmd_hidden :: bool

record bot_module =
  mod_name :: pystr
  mod_cmds :: "command list"
  mod_enabled :: bool
  mod_ready :: bool

section \<open>Contexts and flat contexts (Context.py)\<close>

record flat_context =
  flat_mid :: "nat option"
  flat_cid :: "nat option"
  flat_gid :: "nat option"
  flat_uid :: "nat option"
  flat_arg_str :: "pystr option"
  flat_cmd :: "pystr option"
  flat_alias :: "pystr option"
  flat_prefix :: "pystr option"
  flat_cleanup_on_edit :: bool
  flat_reparse_on_edit :: bool
  flat_sent_messages :: "nat list"

text \<open>
  The \<open>Context\<close> of a command, as \<open>run_cmd\<close> builds it: from a message, so that the
  message, its channel, its author, the command, the alias, the prefix and the argument
  string are present. A message sent in the context and a task of the context are kept
  by their identities.
\<close>

record cmd_context =
  ctx_msg :: message
  ctx_ch :: nat
  ctx_guild :: "nat option"
  ctx_author :: nat
  ctx_args :: pystr
  ctx_arg_str :: pystr
  ctx_cmd :: command
  ctx_alias :: pystr
  ctx_prefix :: pystr
  ctx_sent_messages :: "nat list"
  ctx_cleanup_on_edit :: bool
  ctx_reparse_on_edit :: bool
  ctx_tasks :: "nat list"

text \<open>\<open>Context.__init__\<close> with the keyword arguments of \<open>run_cmd\<close>.\<close>

definition new_context ::
  "message \<Rightarrow> pystr \<Rightarrow> pystr \<Rightarrow> command \<Rightarrow> pystr \<Rightarrow> cmd_context" where
  "new_context message arg_str alias cmd prefix =
     \<lparr>ctx_msg = message,
      ctx_ch = msg_channel message,
      ctx_guild = msg_guild message,
      ctx_author = msg_author message,
      ctx_args = arg_str,
      ctx_arg_str = arg_str,
      ctx_cmd = cmd,
      ctx_alias = alias,
      ctx_prefix = prefix,
      ctx_sent_messages = [],
      ctx_cleanup_on_edit = cmd_handle_edits cmd,
      ctx_reparse_on_edit = cmd_handle_edits cmd,
      ctx_tasks = []\<rparr>"

text \<open>\<open>Context.flatten\<close>.\<close>

definition flatten :: "cmd_context \<Rightarrow> flat_context" where
  "flatten self =
     \<lparr>flat_mid = Some (msg_id (ctx_msg self)),
      flat_cid = Some (ctx_ch self),
      flat_gid = ctx_guild self,
      flat_uid = Some (ctx_author self),
      flat_arg_str = Some (ctx_arg_str self),
      flat_cmd = Some (cmd_name (ctx_cmd self)),
      flat_alias = Some (ctx_alias self),
      flat_prefix = Some (ctx_prefix self),
      flat_cleanup_on_edit = ctx_cleanup_on_edit self,
      flat_reparse_on_edit = ctx_reparse_on_edit self,
      flat_sent_messages = ctx_sent_messages self\<rparr>"

section \<open>The log, the platform and the state of the client\<close>

text \<open>
  A call of \<open>log\<close>: its level, its context (\<open>Global\<close> by default, \<open>mid:\<close> and the
  identity of a message in the lifecycle) and its message. The messages are formatted
  strings; there is one constructor for each call of \<open>log\<close> in the functions below, with
  the values the string is formatted from.
\<close>

datatype log_level = DEBUG | INFO | WARNING | ERROR

datatype log_context = Global | Mid nat

datatype log_event =
    ExecutingCommand pystr message
  | SkippingDisabledModule
  | CommandFailedCheck pystr
  | CaughtSafeCancellation pystr "pystr option"
  | UnhandledTimeoutError
  | CommandCancelled
  | CaughtException exn
  | CompletedWithoutError
  | ExceptionExecuting pystr exn
  | NoPrefixSet

type_synonym log_call = "log_level \<times> log_context \<times> log_event"

text \<open>
  The calls to the platform: \<open>channel.send\<close> of a content or of the embed of an error,
  \<open>channel.fetch_message\<close>, \<open>message.delete\<close> and \<open>channel.delete_messages\<close>.
\<close>

datatype payload = Content pystr | Embed pystr

datatype api_call =
    Send nat payload
  | FetchMessage nat nat
  | DeleteMessage nat
  | BulkDelete nat "nat list"

text \<open>
  The coroutines that \<open>asyncio.ensure_future\<close> schedules without awaiting them: the two
  cleaners, the deletion of a fetched message, and an extra message parser on a message.
\<close>

datatype coroutine =
    FlatCleaner flat_context
  | ActiveCleaner nat
  | MessageDelete nat
  | ExtraParser nat message

text \<open>
  The state: the attributes of the client (\<open>cmd_names\<close> and \<open>modules\<close> are attributes of
  its class), the stores of the module objects and of the context objects by address,
  and what the client has done: the calls of \<open>log\<close>, the calls to the platform, the
  coroutines scheduled, the tasks on which \<open>cancel\<close> was called, and whether \<open>close\<close> was
  called. \<open>ctx_cache\<close> holds the entries of the cache, the least recently used first.
\<close>

record client =
  prefix :: "pystr option"
  cmd_names :: "(pystr, command) dict"
  modules :: "nat list"
  module_store :: "nat \<Rightarrow> bot_module"
  ctx_cache :: "(nat, flat_context) dict"
  active_contexts :: "(nat, nat) dict"
  context_store :: "nat \<Rightarrow> cmd_context"
  next_context :: nat
  extra_message_parsers :: "(nat \<times> int) list"
  logs :: "log_call list"
  api_calls :: "api_call list"
  spawned :: "coroutine list"
  cancelled :: "nat list"
  next_task :: nat
  closed :: bool

text \<open>
  The code that the client runs and does not define, and the platform it talks to:
  the functions of the commands by key (given the address of the context and the flags,
  if the command has flags), the three hooks of the modules by address of the module,
  \<open>valid_prefixes\<close> (which \<open>set_valid_prefixes\<close> replaces), \<open>str.lower\<close> (the case
  mapping of Unicode), the rendering of an exception, the answer of the platform to a call
  after the calls made so far, the channel \<open>get_channel\<close> finds, whether the client may
  manage the messages of a channel, what the other tasks do to the state during one
  \<open>asyncio.sleep\<close>, and the capacity the cache was built with.
\<close>

record program =
  funcs :: "nat \<Rightarrow> nat \<Rightarrow> (pystr, flag_value) dict option \<Rightarrow> client \<Rightarrow> (exn + unit) \<times> client"
  pre_command :: "nat \<Rightarrow> nat \<Rightarrow> client \<Rightarrow> (exn + unit) \<times> client"
  post_command :: "nat \<Rightarrow> nat \<Rightarrow> client \<Rightarrow> (exn + unit) \<times> client"
  on_exception :: "nat \<Rightarrow> nat \<Rightarrow> exn \<Rightarrow> client \<Rightarrow> (exn + unit) \<times> client"
  valid_prefixes :: "message \<Rightarrow> client \<Rightarrow> (exn + pystr list) \<times> client"
  str_lower :: "pystr \<Rightarrow> pystr"
  format_exception_only :: "exn \<Rightarrow> pystr"
  api_result :: "api_call list \<Rightarrow> api_call \<Rightarrow> exn + nat"
  get_channel :: "nat option \<Rightarrow> nat option"
  manage_messages :: "nat \<Rightarrow> bool"
  sleep :: "client \<Rightarrow> client"
  maxsize :: nat

text \<open>\<open>log(message, context, level)\<close>.\<close>

definition log :: "log_event \<Rightarrow> log_context \<Rightarrow> log_level \<Rightarrow> client \<Rightarrow> client" where
  "log message lctx level st = st\<lparr>logs := logs st @ [(level, lctx, message)]\<rparr>"

text \<open>A call to the platform: it is recorded, and the platform answers.\<close>

definition api :: "program \<Rightarrow> api_call \<Rightarrow> client \<Rightarrow> (exn + nat) \<times> client" where
  "api prog call st = (api_result prog (api_calls st) call, st\<lparr>api_calls := api_calls st @ [call]\<rparr>)"

text \<open>\<open>asyncio.ensure_future(coro)\<close>, not awaited.\<close>

definition ensure_future :: "coroutine \<Rightarrow> client \<Rightarrow> client" where
  "ensure_future coro st = st\<lparr>spawned := spawned st @ [coro]\<rparr>"

text \<open>An assignment to attributes of the context object at an address.\<close>

definition update_context :: "nat \<Rightarrow> (cmd_context \<Rightarrow> cmd_context) \<Rightarrow> client \<Rightarrow> client" where
  "update_context ctx f st = st\<lparr>context_store := (context_store st)(ctx := f (context_store st ctx))\<rparr>"

text \<open>The hooks of \<open>Module\<close> that do not wait: \<open>post_command\<close> and \<open>on_exception\<close>.\<close>

definition Module_post_command :: "nat \<Rightarrow> nat \<Rightarrow> client \<Rightarrow> (exn + unit) \<times> client" where
  "Module_post_command self ctx st = (Inr (), st)"

definition Module_on_exception :: "nat \<Rightarrow> nat \<Rightarrow> exn \<Rightarrow> client \<Rightarrow> (exn + unit) \<times> client" where
  "Module_on_exception self ctx exception st = (Inl exception, st)"

section \<open>Replies (Context.py)\<close>

text \<open>\<open>reply(ctx, content)\<close>, with \<open>allow_everyone\<close> at its default \<open>False\<close>.\<close>

definition reply :: "program \<Rightarrow> nat \<Rightarrow> pystr \<Rightarrow> client \<Rightarrow> (exn + nat) \<times> client" where
  "reply prog ctx content st =
     (let content' = (if content \<noteq> [] then sterilise_content content else content)
      in case api prog (Send (ctx_ch (context_store st ctx)) (Content content')) st of
           (Inl e, st1) \<Rightarrow> (Inl e, st1)
         | (Inr message, st1) \<Rightarrow>
             (Inr message,
              update_context ctx
                (\<lambda>c. c\<lparr>ctx_sent_messages := ctx_sent_messages c @ [message]\<rparr>) st1))"

text \<open>\<open>error_reply(ctx, error_str)\<close>.\<close>

definition error_reply :: "program \<Rightarrow> nat \<Rightarrow> pystr \<Rightarrow> client \<Rightarrow> (exn + nat) \<times> client" where
  "error_reply prog ctx error_str st =
     (case (case api prog (Send (ctx_ch (context_store st ctx)) (Embed error_str)) st of
              (Inl Forbidden, st1) \<Rightarrow> reply prog ctx error_str st1
            | (Inl e, st1) \<Rightarrow> (Inl e, st1)
            | (Inr message, st1) \<Rightarrow> (Inr message, st1)) of
        (Inl e, st2) \<Rightarrow> (Inl e, st2)
      | (Inr message, st2) \<Rightarrow>
          (Inr message,
           update_context ctx
             (\<lambda>c. c\<lparr>ctx_sent_messages := ctx_sent_messages c @ [message]\<rparr>) st2))"

section \<open>The lifecycle of a command (Command.py)\<close>

text \<open>The truth value of an optional string: neither \<open>None\<close> nor empty.\<close>

fun truthy :: "pystr option \<Rightarrow> bool" where
  "truthy None = False"
| "truthy (Some s) = (s \<noteq> [])"

text \<open>
  \<open>Command.exec_wrapper\<close>: the hook before the command, the function of the command (with
  the parsed flags when the command declares flags), the hook after it; an \<open>Exception\<close>
  raised by any of them goes to the exception hook of the module.
\<close>

definition exec_body :: "program \<Rightarrow> command \<Rightarrow> nat \<Rightarrow> client \<Rightarrow> (exn + unit) \<times> client" where
  "exec_body prog self ctx st =
     (case pre_command prog (cmd_module self) ctx st of
        (Inl e, st1) \<Rightarrow> (Inl e, st1)
      | (Inr _, st1) \<Rightarrow>
          (case (if cmd_flags self \<noteq> [] then
                   (let (flags, args) =
                          flag_parser (ctx_arg_str (context_store st1 ctx)) (cmd_flags self)
                    in funcs prog (cmd_func self) ctx (Some flags)
                         (update_context ctx (\<lambda>c. c\<lparr>ctx_args := args\<rparr>) st1))
                 else funcs prog (cmd_func self) ctx None st1) of
             (Inl e, st2) \<Rightarrow> (Inl e, st2)
           | (Inr _, st2) \<Rightarrow> post_command prog (cmd_module self) ctx st2))"

definition exec_wrapper :: "program \<Rightarrow> command \<Rightarrow> nat \<Rightarrow> client \<Rightarrow> (exn + unit) \<times> client" where
  "exec_wrapper prog self ctx st =
     (case exec_body prog self ctx st of
        (Inl e, st1) \<Rightarrow>
          if is_Exception e then on_exception prog (cmd_module self) ctx e st1 else (Inl e, st1)
      | (Inr u, st1) \<Rightarrow> (Inr u, st1))"

text \<open>The result of a reply in an \<open>except\<close> clause: the message is dropped, an exception
  leaves \<open>Command.run\<close>.\<close>

definition discard :: "(exn + nat) \<times> client \<Rightarrow> (exn + unit) \<times> client" where
  "discard r = (case r of (Inl e, st) \<Rightarrow> (Inl e, st) | (Inr _, st) \<Rightarrow> (Inr (), st))"

text \<open>
  \<open>Command.run\<close>: the task of \<open>exec_wrapper\<close> is created and added to the tasks of the
  context, then awaited. The cancellation of the task shows as the \<open>CancelledError\<close> that
  the awaited task raises. The \<open>except\<close> clauses are tried in the order of the source.
\<close>

definition Command_run :: "program \<Rightarrow> command \<Rightarrow> nat \<Rightarrow> client \<Rightarrow> (exn + unit) \<times> client" where
  "Command_run prog self ctx st =
     (let task = next_task st;
          st0 = update_context ctx (\<lambda>c. c\<lparr>ctx_tasks := ctx_tasks c @ [task]\<rparr>)
                  (st\<lparr>next_task := Suc task\<rparr>);
          (r, st1) = exec_wrapper prog self ctx st0;
          lctx = Mid (msg_id (ctx_msg (context_store st1 ctx)))
      in case r of
           Inl (FailedCheck check_name check_msg) \<Rightarrow>
             (let st2 = log (CommandFailedCheck check_name) lctx DEBUG st1
              in if truthy check_msg then discard (error_reply prog ctx (the check_msg) st2)
                 else (Inr (), st2))
         | Inl (SafeCancellation cls e_msg e_details) \<Rightarrow>
             (let st2 = log (CaughtSafeCancellation cls e_details) lctx DEBUG st1
              in case e_msg of
                   Some m \<Rightarrow> discard (error_reply prog ctx m st2)
                 | None \<Rightarrow> (Inr (), st2))
         | Inl TimeoutError \<Rightarrow>
             discard (error_reply prog ctx (ustr ''Operation timed out.'')
                        (log UnhandledTimeoutError lctx WARNING st1))
         | Inl CancelledError \<Rightarrow> (Inr (), log CommandCancelled lctx DEBUG st1)
         | Inl e \<Rightarrow>
             if is_Exception e then
               discard (reply prog ctx
                  (ustr ''An unexpected internal error occurred while running your command! '' @
                   ustr ''Please report the following error to the developer:'' @ [10, 96] @
                   format_exception_only prog e @ [96])
                  (log (CaughtException e) lctx ERROR st1))
             else (Inl e, st1)
         | Inr _ \<Rightarrow> (Inr (), log CompletedWithoutError lctx DEBUG st1))"

section \<open>The bounded cache\<close>

text \<open>
  Modelled from the spec: the class \<open>LRUCache\<close> of the library \<open>cachetools\<close>, which is
  not among the source files. The capacity is fixed at construction; the insertion of a
  new entry past the capacity evicts the least recently used entries; a lookup, and an
  assignment to a key, make the key the most recently used; the test \<open>key in cache\<close>
  changes nothing. The entries are kept in a list, the least recently used first. An entry
  has size one; in a cache of capacity zero the library refuses it with a \<open>ValueError\<close>.
\<close>

definition lru_contains :: "(nat, 'v) dict \<Rightarrow> nat \<Rightarrow> bool" where
  "lru_contains entries k \<longleftrightarrow> map_of entries k \<noteq> None"

definition lru_getitem :: "(nat, 'v) dict \<Rightarrow> nat \<Rightarrow> ('v \<times> (nat, 'v) dict) option" where
  "lru_getitem entries k =
     (case map_of entries k of
        None \<Rightarrow> None
      | Some v \<Rightarrow> Some (v, AList.delete k entries @ [(k, v)]))"

definition lru_setitem :: "nat \<Rightarrow> (nat, 'v) dict \<Rightarrow> nat \<Rightarrow> 'v \<Rightarrow> exn + (nat, 'v) dict" where
  "lru_setitem capacity entries k v =
     (if capacity = 0 then Inl (OtherException (ustr ''ValueError: value too large''))
      else if lru_contains entries k then Inr (AList.delete k entries @ [(k, v)])
      else Inr (drop (length entries + 1 - capacity) entries @ [(k, v)]))"

section \<open>The client (cmdClient.py)\<close>

text \<open>\<open>update_cmdnames\<close>.\<close>

definition add_cmd :: "(pystr, command) dict \<Rightarrow> command \<Rightarrow> (pystr, command) dict" where
  "add_cmd cmds cmd =
     foldl (\<lambda>d alias. dict_set d alias cmd) (dict_set cmds (cmd_name cmd) cmd) (cmd_aliases cmd)"

definition update_cmdnames :: "client \<Rightarrow> client" where
  "update_cmdnames st =
     st\<lparr>cmd_names :=
          foldl (\<lambda>cmds m. if mod_enabled (module_store st m)
                           then foldl add_cmd cmds (mod_cmds (module_store st m)) else cmds)
            [] (modules st)\<rparr>"

text \<open>The \<open>valid_prefixes\<close> of the class.\<close>

definition cmdClient_valid_prefixes :: "message \<Rightarrow> client \<Rightarrow> (exn + pystr list) \<times> client" where
  "cmdClient_valid_prefixes message st =
     (if truthy (prefix st) then (Inr [the (prefix st)], st)
      else (Inr [], (log NoPrefixSet Global ERROR st)\<lparr>closed := True\<rparr>))"

text \<open>
  \<open>run_cmd\<close>, in three parts. Lines 256 to 281: the two calls of \<open>log\<close>, the command name
  cache updated when the module of the command is disabled (the command runs all the
  same), and the context built, at a new address; \<open>run_cmd_context\<close> returns the address
  and the state.
\<close>

definition run_cmd_context ::
  "message \<Rightarrow> pystr \<Rightarrow> pystr \<Rightarrow> pystr \<Rightarrow> command \<Rightarrow> client \<Rightarrow> nat \<times> client" where
  "run_cmd_context message cmdname arg_str pfx cmd st =
     (let lctx = Mid (msg_id message);
          st1 = log (ExecutingCommand cmdname message) lctx INFO st;
          st2 = (if \<not> mod_enabled (module_store st1 (cmd_module cmd))
                 then update_cmdnames (log SkippingDisabledModule lctx INFO st1)
                 else st1);
          ctx = next_context st2
      in (ctx,
          st2\<lparr>context_store :=
                 (context_store st2)(ctx := new_context message arg_str cmdname cmd pfx),
               next_context := Suc ctx\<rparr>))"

text \<open>
  Lines 287 to 299: \<open>cmd.run\<close> under \<open>try\<close>. \<open>except Exception\<close> logs the exceptions of
  \<open>cmd.run\<close> that are an \<open>Exception\<close>; the others leave the function after the
  \<open>finally\<close> clause, which renews the entry of the cache and removes the message from
  the active contexts. A \<open>ValueError\<close> of the cache leaves the function where it is
  raised.
\<close>

definition run_cmd_try ::
  "program \<Rightarrow> message \<Rightarrow> pystr \<Rightarrow> command \<Rightarrow> nat \<Rightarrow> client \<Rightarrow> (exn + unit) \<times> client" where
  "run_cmd_try prog message cmdname cmd ctx st =
     (let (r, st1) = Command_run prog cmd ctx st;
          (r', st2) =
            (case r of
               Inl e \<Rightarrow>
                 if is_Exception e
                 then (Inr (), log (ExceptionExecuting cmdname e) (Mid (msg_id message)) ERROR st1)
                 else (Inl e, st1)
             | Inr u \<Rightarrow> (Inr u, st1))
      in case lru_setitem (maxsize prog) (ctx_cache st2) (msg_id message)
                (flatten (context_store st2 ctx)) of
           Inl e \<Rightarrow> (Inl e, st2)
         | Inr cache \<Rightarrow>
             (r', st2\<lparr>ctx_cache := cache,
                      active_contexts :=
                        AList.delete (msg_id message) (active_contexts st2)\<rparr>))"

text \<open>
  \<open>run_cmd\<close>: the command looked up (a \<open>KeyError\<close> when the name is not in the cache of
  names), the context built, lines 284 and 285 that add the flat context to the cache and
  the context to the active contexts, and the lifecycle.
\<close>

definition run_cmd ::
  "program \<Rightarrow> message \<Rightarrow> pystr \<Rightarrow> pystr \<Rightarrow> pystr \<Rightarrow> client \<Rightarrow> (exn + unit) \<times> client" where
  "run_cmd prog message cmdname arg_str pfx st =
     (case dict_get (cmd_names st) cmdname of
        None \<Rightarrow> (Inl (OtherException (ustr ''KeyError'')), st)
      | Some cmd \<Rightarrow>
          (let (ctx, st1) = run_cmd_context message cmdname arg_str pfx cmd st
           in case lru_setitem (maxsize prog) (ctx_cache st1) (msg_id message)
                     (flatten (context_store st1 ctx)) of
                Inl e \<Rightarrow> (Inl e, st1)
              | Inr cache \<Rightarrow>
                  run_cmd_try prog message cmdname cmd ctx
                    (st1\<lparr>ctx_cache := cache,
                         active_contexts :=
                           dict_set (active_contexts st1) (msg_id message) ctx\<rparr>)))"

text \<open>
  Line 227: the names of the command name cache that equal the lowercased slice of the
  content of the same length, in the order of the cache.
\<close>

definition matching_names :: "program \<Rightarrow> client \<Rightarrow> pystr \<Rightarrow> pystr list" where
  "matching_names prog st stripcontent =
     filter (\<lambda>cmdname. str_lower prog (take (length cmdname) stripcontent) = cmdname)
       (map fst (cmd_names st))"

text \<open>\<open>max(names, key=len)\<close> on a list that is not empty: the first of the longest.\<close>

definition max_by_len :: "pystr list \<Rightarrow> pystr" where
  "max_by_len names =
     foldl (\<lambda>best x. if length best < length x then x else best) (hd names) (tl names)"

text \<open>
  The loop of \<open>parse_message\<close> over the sorted prefixes: the result of \<open>run_cmd\<close> for the
  first prefix with a matching name, \<open>None\<close> when the loop ends without one.
\<close>

fun dispatch ::
  "program \<Rightarrow> message \<Rightarrow> pystr \<Rightarrow> pystr list \<Rightarrow> client \<Rightarrow> ((exn + unit) \<times> client) option" where
  "dispatch prog message content [] st = None"
| "dispatch prog message content (pfx # prefixes) st =
     (let stripcontent = strip (drop (length pfx) content);
          cmdnames = matching_names prog st stripcontent
      in if cmdnames \<noteq> [] then
           (let cmdname = max_by_len cmdnames
            in Some (run_cmd prog message cmdname
                       (strip (drop (length cmdname) stripcontent)) pfx st))
         else dispatch prog message content prefixes st)"

text \<open>\<open>content.startswith(prefix)\<close>.\<close>

definition startswith :: "pystr \<Rightarrow> pystr \<Rightarrow> bool" where
  "startswith s pfx \<longleftrightarrow> take (length pfx) s = pfx"

definition parse_message :: "program \<Rightarrow> message \<Rightarrow> client \<Rightarrow> (exn + unit) \<times> client" where
  "parse_message prog message st =
     (let content = strip (msg_content message)
      in case valid_prefixes prog message st of
           (Inl e, st1) \<Rightarrow> (Inl e, st1)
         | (Inr prefixes, st1) \<Rightarrow>
             (case dispatch prog message content
                     (rev (sort (filter (startswith content) prefixes))) st1 of
                Some r \<Rightarrow> r
              | None \<Rightarrow>
                  (Inr (),
                   foldl (\<lambda>s parser. ensure_future (ExtraParser (fst parser) message) s) st1
                     (extra_message_parsers st1))))"

definition on_message :: "program \<Rightarrow> message \<Rightarrow> client \<Rightarrow> (exn + unit) \<times> client" where
  "on_message prog message st = parse_message prog message st"

text \<open>
  \<open>flat_command_response_cleaner\<close>: the loop over the identities of the messages sent,
  then the function. \<open>except Exception: pass\<close> lets the other exceptions through.
\<close>

fun flat_clean_loop :: "program \<Rightarrow> nat \<Rightarrow> nat list \<Rightarrow> client \<Rightarrow> (exn + unit) \<times> client" where
  "flat_clean_loop prog ch [] st = (Inr (), st)"
| "flat_clean_loop prog ch (msgid # msgids) st =
     (case api prog (FetchMessage ch msgid) st of
        (Inl e, st1) \<Rightarrow>
          if is_Exception e then flat_clean_loop prog ch msgids st1 else (Inl e, st1)
      | (Inr _, st1) \<Rightarrow> flat_clean_loop prog ch msgids (ensure_future (MessageDelete msgid) st1))"

definition flat_command_response_cleaner ::
  "program \<Rightarrow> flat_context \<Rightarrow> client \<Rightarrow> (exn + unit) \<times> client" where
  "flat_command_response_cleaner prog flatctx st =
     (case get_channel prog (flat_cid flatctx) of
        None \<Rightarrow> (Inr (), st)
      | Some ch \<Rightarrow> flat_clean_loop prog ch (flat_sent_messages flatctx) st)"

text \<open>
  What the flat cleaner does, for the statements below. \<open>fetch_answer\<close>: the answer of
  the platform to the fetch of the message at the position \<open>i\<close> of \<open>ms\<close>, made from the
  state \<open>st\<close> after the fetches of the messages before it. \<open>fetched\<close>: the messages among
  the first \<open>k\<close> of \<open>ms\<close> whose fetch the platform answers with a message, in the order of
  \<open>ms\<close>. \<open>leaves_loop\<close>: the answer is an exception that \<open>except Exception\<close> does not
  catch. \<open>raises_only_exceptions\<close>: every exception the platform answers with is an
  \<open>Exception\<close>.
\<close>

definition fetch_answer :: "program \<Rightarrow> nat \<Rightarrow> nat list \<Rightarrow> client \<Rightarrow> nat \<Rightarrow> exn + nat" where
  "fetch_answer prog ch ms st i =
     api_result prog (api_calls st @ map (FetchMessage ch) (take i ms)) (FetchMessage ch (ms ! i))"

definition fetched :: "program \<Rightarrow> nat \<Rightarrow> nat list \<Rightarrow> client \<Rightarrow> nat \<Rightarrow> nat list" where
  "fetched prog ch ms st k =
     map (\<lambda>i. ms ! i) (filter (\<lambda>i. \<not> isl (fetch_answer prog ch ms st i)) [0..<k])"

definition leaves_loop :: "exn + nat \<Rightarrow> bool" where
  "leaves_loop answer \<longleftrightarrow> (case answer of Inl e \<Rightarrow> \<not> is_Exception e | Inr m \<Rightarrow> False)"

definition raises_only_exceptions :: "program \<Rightarrow> bool" where
  "raises_only_exceptions prog \<longleftrightarrow>
     (\<forall>calls call e. api_result prog calls call = Inl e \<longrightarrow> is_Exception e)"

text \<open>
  \<open>flat_clean_exit\<close>: the cleaner returns normally after the fetch of all the \<open>k\<close> messages
  of \<open>ms\<close>, none of which left the loop; or it raises the exception \<open>e\<close>, which no
  \<open>except Exception\<close> catches, that the fetch at the position \<open>k - 1\<close> raised, the first
  one to leave the loop.
\<close>

definition flat_clean_exit ::
  "program \<Rightarrow> nat \<Rightarrow> nat list \<Rightarrow> client \<Rightarrow> (exn + unit) \<Rightarrow> nat \<Rightarrow> bool" where
  "flat_clean_exit prog ch ms st r k \<longleftrightarrow>
     (case r of
        Inr u \<Rightarrow> k = length ms \<and> (\<forall>i<k. \<not> leaves_loop (fetch_answer prog ch ms st i))
      | Inl e \<Rightarrow>
          0 < k \<and> fetch_answer prog ch ms st (k - 1) = Inl e \<and> \<not> is_Exception e \<and>
          (\<forall>i<k - 1. \<not> leaves_loop (fetch_answer prog ch ms st i)))"

text \<open>
  \<open>flat_clean_result\<close>: from the state \<open>st\<close>, the cleaner has fetched the first \<open>k\<close> of the
  messages \<open>ms\<close> from the channel \<open>ch\<close>, in order, and has scheduled one deletion of each
  of them that the platform answered with a message, in the same order, and no other; it
  has done nothing else; it has ended as \<open>flat_clean_exit\<close> says; and it returns normally
  when the platform raises only \<open>Exception\<close>s.
\<close>

definition flat_clean_result ::
  "program \<Rightarrow> nat \<Rightarrow> nat list \<Rightarrow> client \<Rightarrow> (exn + unit) \<Rightarrow> client \<Rightarrow> nat \<Rightarrow> bool" where
  "flat_clean_result prog ch ms st r st' k \<longleftrightarrow>
     k \<le> length ms \<and>
     st' = st\<lparr>api_calls := api_calls st @ map (FetchMessage ch) (take k ms),
              spawned := spawned st @ map MessageDelete (fetched prog ch ms st k)\<rparr> \<and>
     flat_clean_exit prog ch ms st r k \<and>
     (raises_only_exceptions prog \<longrightarrow> r = Inr ())"

text \<open>
  \<open>active_command_response_cleaner\<close>. \<open>asyncio.gather\<close> starts the deletion of every
  message and raises the first exception of the deletions; \<open>gather_deletes\<close> returns it.
\<close>

fun gather_deletes :: "program \<Rightarrow> nat list \<Rightarrow> client \<Rightarrow> exn option \<times> client" where
  "gather_deletes prog [] st = (None, st)"
| "gather_deletes prog (m # ms) st =
     (case api prog (DeleteMessage m) st of
        (Inl e, st1) \<Rightarrow> (Some e, snd (gather_deletes prog ms st1))
      | (Inr _, st1) \<Rightarrow> gather_deletes prog ms st1)"

definition active_command_response_cleaner ::
  "program \<Rightarrow> nat \<Rightarrow> client \<Rightarrow> (exn + unit) \<times> client" where
  "active_command_response_cleaner prog ctx st =
     (let c = context_store st ctx;
          (raised, st1) =
            (if ctx_guild c \<noteq> None \<and> manage_messages prog (ctx_ch c) then
               (case api prog (BulkDelete (ctx_ch c) (ctx_sent_messages c)) st of
                  (Inl e, st') \<Rightarrow> (Some e, st')
                | (Inr _, st') \<Rightarrow> (None, st'))
             else gather_deletes prog (ctx_sent_messages c) st)
      in case raised of
           None \<Rightarrow> (Inr (), st1)
         | Some NotFound \<Rightarrow> (Inr (), st1)
         | Some e \<Rightarrow> (Inl e, st1))"

text \<open>
  Lines 178 and 179 of \<open>on_message_edit\<close>: the loop that sleeps until the message has left
  the active contexts. It ends only if the other tasks remove the message; \<open>None\<close> is the
  loop that does not end.
\<close>

partial_function (option) wait_removed :: "program \<Rightarrow> nat \<Rightarrow> client \<Rightarrow> client option" where
  "wait_removed prog mid st =
     (if dict_get (active_contexts st) mid \<noteq> None then wait_removed prog mid (sleep prog st)
      else Some st)"

text \<open>Lines 170 to 183: the cleanup of \<open>on_message_edit\<close>.\<close>

definition edit_cleanup :: "program \<Rightarrow> message \<Rightarrow> flat_context \<Rightarrow> client \<Rightarrow> client option" where
  "edit_cleanup prog after flatctx st =
     (if flat_cleanup_on_edit flatctx then
        (case dict_get (active_contexts st) (msg_id after) of
           Some ctx \<Rightarrow>
             if ctx_tasks (context_store st ctx) \<noteq> [] then
               map_option (ensure_future (ActiveCleaner ctx))
                 (wait_removed prog (msg_id after)
                    (st\<lparr>cancelled := cancelled st @ ctx_tasks (context_store st ctx)\<rparr>))
             else Some (ensure_future (FlatCleaner flatctx) st)
         | None \<Rightarrow> Some (ensure_future (FlatCleaner flatctx) st))
      else Some st)"

definition on_message_edit ::
  "program \<Rightarrow> message \<Rightarrow> message \<Rightarrow> client \<Rightarrow> ((exn + unit) \<times> client) option" where
  "on_message_edit prog before after st =
     (if msg_content before \<noteq> msg_content after then
        if lru_contains (ctx_cache st) (msg_id after) then
          (case lru_getitem (ctx_cache st) (msg_id after) of
             None \<Rightarrow> Some (Inl (OtherException (ustr ''KeyError'')), st)
           | Some (flatctx, cache) \<Rightarrow>
               (case edit_cleanup prog after flatctx (st\<lparr>ctx_cache := cache\<rparr>) of
                  None \<Rightarrow> None
                | Some st1 \<Rightarrow>
                    if flat_reparse_on_edit flatctx then Some (parse_message prog after st1)
                    else Some (Inr (), st1)))
        else Some (on_message prog after st)
      else Some (Inr (), st))"

section \<open>An example client\<close>

text \<open>
  \<open>str.lower\<close> on the strings of the examples: the letters \<open>A\<close> to \<open>Z\<close> become \<open>a\<close> to
  \<open>z\<close>, the other code points stay, as every code point without a lowercase mapping
  does under \<open>str.lower\<close>. \<open>ascii_upper\<close>: the code point is one of \<open>A\<close> to \<open>Z\<close>.
\<close>

definition ascii_lower :: "pystr \<Rightarrow> pystr" where
  "ascii_lower s = map (\<lambda>c. if 65 \<le> c \<and> c \<le> 90 then c + 32 else c) s"

definition ascii_upper :: "nat \<Rightarrow> bool" where
  "ascii_upper c \<longleftrightarrow> 65 \<le> c \<and> c \<le> 90"

text \<open>
  A client with the prefix \<open>!\<close> and one module with the command \<open>ping\<close>; the message
  \<open>!ping\<close> with the identity 1, in the channel 5 of a guild; a platform that answers every
  call, with the number of calls made before as the identity of a message sent; a cache
  of capacity 2.
\<close>

definition demo_command :: command where
  "demo_command =
     \<lparr>cmd_name = ustr ''ping'', cmd_func = 0, cmd_module = 0, cmd_handle_edits = True,
      cmd_aliases = [], cmd_flags = [], cmd_hidden = False\<rparr>"

definition demo_module :: bot_module where
  "demo_module =
     \<lparr>mod_name = ustr ''Base Module'', mod_cmds = [demo_command], mod_enabled = True,
      mod_ready = True\<rparr>"

definition demo_message :: message where
  "demo_message =
     \<lparr>msg_id = 1, msg_content = ustr ''!ping'', msg_channel = 5, msg_guild = Some 7,
      msg_author = 9\<rparr>"

definition demo_client :: client where
  "demo_client =
     \<lparr>prefix = Some (ustr ''!''),
      cmd_names = [(ustr ''ping'', demo_command)],
      modules = [0],
      module_store = (\<lambda>m. demo_module),
      ctx_cache = [],
      active_contexts = [],
      context_store = (\<lambda>a. new_context demo_message [] (ustr ''ping'') demo_command (ustr ''!'')),
      next_context = 0,
      extra_message_parsers = [],
      logs = [],
      api_calls = [],
      spawned = [],
      cancelled = [],
      next_task = 0,
      closed = False\<rparr>"

definition demo_program :: program where
  "demo_program =
     \<lparr>funcs = (\<lambda>k ctx flags st. (Inr (), st)),
      pre_command = (\<lambda>m ctx st. (Inr (), st)),
      post_command = Module_post_command,
      on_exception = Module_on_exception,
      valid_prefixes = cmdClient_valid_prefixes,
      str_lower = ascii_lower,
      format_exception_only = (\<lambda>e. []),
      api_result = (\<lambda>calls call. Inr (length calls)),
      get_channel = (\<lambda>cid. cid),
      manage_messages = (\<lambda>ch. True),
      sleep = (\<lambda>st. st),
      maxsize = 2\<rparr>"

text \<open>A check without a message that fails, and the program whose commands it gates.\<close>

definition silent_check :: "(nat, client) check" where
  "silent_check = Check (ustr ''SILENT'') None (\<lambda>ctx st. (Inr False, st)) [] []"

definition gated_program :: program where
  "gated_program =
     demo_program\<lparr>funcs := (\<lambda>k. check_decorator silent_check (\<lambda>ctx flags st. (Inr (), st)))\<rparr>"

text \<open>The program whose commands raise the exception \<open>e\<close>.\<close>

definition raising_program :: "exn \<Rightarrow> program" where
  "raising_program e = demo_program\<lparr>funcs := (\<lambda>k ctx flags st. (Inl e, st))\<rparr>"

text \<open>
  The example client after the command has sent the messages 10 and 11 and ended: the
  context at the address 0 holds them, the cache holds the flat context, and no context
  is active. The message edited to \<open>!pong\<close>, which is no command.
\<close>

definition demo_replied :: client where
  "demo_replied = update_context 0 (\<lambda>c. c\<lparr>ctx_sent_messages := [10, 11]\<rparr>) demo_client"

definition demo_flat :: flat_context where
  "demo_flat = flatten (context_store demo_replied 0)"

definition demo_finished :: client where
  "demo_finished = demo_replied\<lparr>ctx_cache := [(1, demo_flat)]\<rparr>"

definition demo_edited :: message where
  "demo_edited = demo_message\<lparr>msg_content := ustr ''!pong''\<rparr>"

text \<open>The example client with the names \<open>help\<close>, \<open>helpme\<close> and \<open>Ping\<close> registered.\<close>

definition demo_names :: client where
  "demo_names =
     demo_client\<lparr>cmd_names := [(ustr ''help'', demo_command), (ustr ''helpme'', demo_command),
                               (ustr ''Ping'', demo_command)]\<rparr>"

text \<open>
  U+03D2, the Greek upsilon with hook symbol: an uppercase letter (its general category is
  \<open>Lu\<close>, and \<open>str.isupper\<close> holds of it) that has no lowercase mapping, so that
  \<open>str.lower\<close> returns it unchanged. The example client with this one character as the
  only registered name.
\<close>

definition upsilon_hook :: nat where
  "upsilon_hook = 978"

definition demo_upsilon :: client where
  "demo_upsilon = demo_client\<lparr>cmd_names := [([upsilon_hook], demo_command)]\<rparr>"

text \<open>
  The example client while the command runs: the context at the address 0 has sent the
  messages 10 and 11 and holds the task 0, the message is in the active contexts, and the
  cache holds the flat context made when the command started. In \<open>finishing_program\<close>
  the cancelled lifecycle ends during the first sleep: \<open>run_cmd\<close> renews the entry of the
  cache and removes the message from the active contexts. \<open>demo_once\<close> and \<open>demo_twice\<close>
  are the states after one and after two deliveries of the edit.
\<close>

definition demo_initial_flat :: flat_context where
  "demo_initial_flat = flatten (new_context demo_message [] (ustr ''ping'') demo_command (ustr ''!''))"

definition finishing_program :: program where
  "finishing_program =
     demo_program\<lparr>sleep := (\<lambda>st. st\<lparr>ctx_cache := [(1, flatten (context_store st 0))],
                                       active_contexts := AList.delete 1 (active_contexts st)\<rparr>)\<rparr>"

definition demo_active :: client where
  "demo_active =
     (update_context 0 (\<lambda>c. c\<lparr>ctx_tasks := [0]\<rparr>) demo_replied)
       \<lparr>ctx_cache := [(1, flatten (new_context demo_message [] (ustr ''ping'') demo_command (ustr ''!'')))],
        active_contexts := [(1, 0)], next_task := 1\<rparr>"

definition demo_once :: client where
  "demo_once =
     ensure_future (ActiveCleaner 0) (sleep finishing_program (demo_active\<lparr>cancelled := [0]\<rparr>))"

definition demo_twice :: client where
  "demo_twice = ensure_future (FlatCleaner demo_flat) demo_once"

section \<open>Properties of the flag parser\<close>

lemmas py_defs = ustr_def isspace_def lstrip_with_def rstrip_with_def strip_with_def strip_def
  rstrip_def strip_chars_def endswith_def join_def re_split_def slice_def slice_from_def
  dict_set_def dict_get_def short_marker_def long_marker_def emdash_marker_def
  split_terminator_def flag_index_def flag_parser_def

lemmas demo_defs = demo_command_def demo_module_def demo_message_def demo_client_def
  demo_program_def silent_check_def gated_program_def raising_program_def
  demo_replied_def demo_flat_def demo_finished_def demo_edited_def demo_names_def

lemma index_of_None_iff: "index_of xs x = None \<longleftrightarrow> x \<notin> set xs"
  by (induction xs) auto

lemma index_of_Some_iff:
  "index_of xs x = Some i \<longleftrightarrow> i < length xs \<and> xs ! i = x \<and> (\<forall>j<i. xs ! j \<noteq> x)"
proof (induction xs arbitrary: i)
  case Nil
  then show ?case by simp
next
  case (Cons y ys)
  show ?case
  proof (cases i)
    case 0
    then show ?thesis by auto
  next
    case (Suc k)
    have "(\<forall>j<Suc k. (y # ys) ! j \<noteq> x) \<longleftrightarrow> y \<noteq> x \<and> (\<forall>j<k. ys ! j \<noteq> x)"
      by (auto simp: less_Suc_eq_0_disj)
    then show ?thesis using Suc Cons.IH[of k] by auto
  qed
qed

text \<open>
  Claim C2, as stated: \<open>parse("--a=val b c", ["a="])\<close> returns the flags \<open>{a: "val"}\<close>
  and the remainder \<open>"b c"\<close>. The code does not: the parameter \<open>--a=val\<close> is none of the
  markers \<open>-a\<close>, \<open>--a\<close> and em dash \<open>a\<close>, which are compared with whole parameters.
\<close>

theorem flag_parser_equals_sign_counterexample:
  "flag_parser (ustr ''--a=val b c'') [ustr ''a='']
     \<noteq> ([(ustr ''a'', FlagStr (ustr ''val''))], ustr ''b c'')"
  by (simp add: py_defs)

text \<open>
  Claim C2, amended: \<open>parse("--a=val b c", ["a="])\<close> reports the flag \<open>a\<close> absent
  (\<open>False\<close>) and returns the whole input as the remainder; the flag declared as \<open>a=\<close>
  takes its value from the parameter after its marker, so that
  \<open>parse("--a val b c", ["a="])\<close> returns the flags \<open>{a: "val"}\<close> and the remainder
  \<open>"b c"\<close>.
\<close>

theorem flag_parser_single_value:
  "flag_parser (ustr ''--a=val b c'') [ustr ''a='']
     = ([(ustr ''a'', FlagBool False)], ustr ''--a=val b c'') \<and>
   flag_parser (ustr ''--a val b c'') [ustr ''a='']
     = ([(ustr ''a'', FlagStr (ustr ''val''))], ustr ''b c'')"
  by (simp add: py_defs)

text \<open>
  Claim C6, as stated: \<open>parse("x -- -a b", ["a"])\<close> returns the flags \<open>{a: false}\<close> and
  the remainder exactly \<open>"x -a b"\<close>. The remainder of the code has two spaces.
\<close>

theorem flag_parser_terminator_counterexample:
  "flag_parser (ustr ''x -- -a b'') [ustr ''a'']
     \<noteq> ([(ustr ''a'', FlagBool False)], ustr ''x -a b'')"
  by (simp add: py_defs)

text \<open>
  Claim C6, amended: \<open>parse("x -- -a b", ["a"])\<close> returns the flags \<open>{a: false}\<close> and
  the remainder \<open>"x  -a b"\<close>, with the white space before and the white space after the
  terminator both kept: the parameters before \<open>--\<close> are scanned (\<open>["", "x", " "]\<close>, the
  flag absent), and the parameters after it (\<open>[" ", "-a", " ", "b", ""]\<close>) are appended as
  they are.
\<close>

theorem flag_parser_terminator:
  "split_terminator (re_split (ustr ''x -- -a b''))
     = ([[], ustr ''x'', ustr '' ''], [ustr '' '', ustr ''-a'', ustr '' '', ustr ''b'', []]) \<and>
   flag_parser (ustr ''x -- -a b'') [ustr ''a'']
     = ([(ustr ''a'', FlagBool False)], ustr ''x  -a b'')"
  by (simp add: py_defs)

text \<open>
  Claim C9, as stated: the parser positions a flag at the first occurrence of its marker
  across the three forms, the earliest occurrence deciding when more than one form occurs.
  In \<open>"--a x -a y"\<close> the long form comes first, at position 1, and the parser positions the
  flag at the short form, at position 5: the flag declared as \<open>a=\<close> gets the value \<open>"y"\<close>,
  and \<open>"--a x"\<close> is the remainder.
\<close>

theorem flag_index_earliest_counterexample:
  "flag_index (re_split (ustr ''--a x -a y'')) (ustr ''a'') = Some 5 \<and>
   earliest_marker (re_split (ustr ''--a x -a y'')) (ustr ''a'') = Some 1 \<and>
   flag_parser (ustr ''--a x -a y'') [ustr ''a='']
     = ([(ustr ''a'', FlagStr (ustr ''y''))], ustr ''--a x'')"
  by (simp add: py_defs)

text \<open>
  Claim C9, amended: for every declared flag and every parameter list, the parser positions
  the flag at the first occurrence of its short form \<open>-name\<close> when the short form occurs;
  otherwise at the first occurrence of its long form \<open>--name\<close> when that occurs; otherwise
  at the first occurrence of its em dash form; and nowhere when none occurs. The order of
  the forms decides between two forms that both occur, not their positions.
\<close>

theorem flag_index_form_priority:
  "(flag_index params c = Some i \<longleftrightarrow>
      i < length params \<and> (\<forall>j<i. params ! j \<noteq> params ! i) \<and>
      (params ! i = short_marker @ c
       \<or> params ! i = long_marker @ c \<and> short_marker @ c \<notin> set params
       \<or> params ! i = emdash_marker @ c \<and> short_marker @ c \<notin> set params
           \<and> long_marker @ c \<notin> set params)) \<and>
   (flag_index params c = None \<longleftrightarrow>
      short_marker @ c \<notin> set params \<and> long_marker @ c \<notin> set params \<and>
      emdash_marker @ c \<notin> set params)"
proof -
  have ne: "short_marker @ c \<noteq> long_marker @ c" "short_marker @ c \<noteq> emdash_marker @ c"
    "long_marker @ c \<noteq> emdash_marker @ c"
    by (simp_all add: short_marker_def long_marker_def emdash_marker_def)
  have "flag_index params c = Some i \<longleftrightarrow>
      i < length params \<and> (\<forall>j<i. params ! j \<noteq> params ! i) \<and>
      (params ! i = short_marker @ c
       \<or> params ! i = long_marker @ c \<and> short_marker @ c \<notin> set params
       \<or> params ! i = emdash_marker @ c \<and> short_marker @ c \<notin> set params
           \<and> long_marker @ c \<notin> set params)"
    unfolding flag_index_def using ne
    by (auto simp: index_of_Some_iff index_of_None_iff in_set_conv_nth)
  moreover have "flag_index params c = None \<longleftrightarrow>
      short_marker @ c \<notin> set params \<and> long_marker @ c \<notin> set params \<and>
      emdash_marker @ c \<notin> set params"
    by (auto simp: flag_index_def index_of_None_iff)
  ultimately show ?thesis by blast
qed

theorem flag_index_form_priority_witness:
  "flag_index [[], ustr ''--a'', ustr '' '', ustr ''x'', ustr '' '', ustr ''-a'', []] (ustr ''a'')
     = Some 5 \<and>
   flag_index [[], ustr ''--a'', ustr '' '', ustr ''x'', []] (ustr ''a'') = Some 1 \<and>
   flag_index [[], ustr ''x'', []] (ustr ''a'') = None"
proof -
  let ?p = "[[], ustr ''--a'', ustr '' '', ustr ''x'', ustr '' '', ustr ''-a'', []]"
  let ?q = "[[], ustr ''--a'', ustr '' '', ustr ''x'', []]"
  let ?r = "[[], ustr ''x'', []]"
  have "\<forall>j<5. ?p ! j \<noteq> ?p ! 5"
  proof (intro allI impI)
    fix j :: nat
    assume "j < 5"
    then have "j = 0 \<or> j = 1 \<or> j = 2 \<or> j = 3 \<or> j = 4" by linarith
    then show "?p ! j \<noteq> ?p ! 5" by (auto simp: ustr_def)
  qed
  then have "flag_index ?p (ustr ''a'') = Some 5"
    using flag_index_form_priority[of ?p "ustr ''a''" 5]
    by (simp add: ustr_def short_marker_def)
  moreover have "\<forall>j<1. ?q ! j \<noteq> ?q ! 1"
    by (simp add: ustr_def)
  then have "flag_index ?q (ustr ''a'') = Some 1"
    using flag_index_form_priority[of ?q "ustr ''a''" 1]
    by (simp add: ustr_def short_marker_def long_marker_def)
  moreover have "flag_index ?r (ustr ''a'') = None"
    using flag_index_form_priority[of ?r "ustr ''a''" 0]
    by (simp add: ustr_def short_marker_def long_marker_def emdash_marker_def)
  ultimately show ?thesis by blast
qed

section \<open>Properties of the checks\<close>

lemma run_parents_skip:
  "all_return False ps1 ctx s = Some s1 \<Longrightarrow>
   run_parents (ps1 @ ps2) ctx s = run_parents ps2 ctx s1"
  by (induction ps1 arbitrary: s) (auto split: prod.splits sum.splits bool.splits if_splits)

lemma run_required_skip:
  "all_return True rs1 ctx s = Some s1 \<Longrightarrow>
   run_required (rs1 @ rs2) ctx s = run_required rs2 ctx s1"
  by (induction rs1 arbitrary: s) (auto split: prod.splits sum.splits bool.splits if_splits)

text \<open>
  Claim C1: \<open>Check.run\<close> returns \<open>True\<close> as soon as a parent, in declared order, evaluates
  \<open>True\<close>: the result and the state left are those of that parent, whatever the later
  parents \<open>ps2\<close>, the requirements \<open>rs\<close> and the check's own function \<open>f\<close> are, so none of
  them is evaluated. When every parent evaluates \<open>False\<close>, it returns \<open>False\<close> as soon as
  a requirement evaluates \<open>False\<close>, whatever the later requirements \<open>rs2\<close> and \<open>f\<close> are.
  When every parent evaluates \<open>False\<close> and every requirement \<open>True\<close>, it returns what its
  own function returns in the state they leave.
\<close>

theorem run_short_circuit:
  "(all_return False ps1 ctx s = Some s1 \<and> run p ctx s1 = (Inr True, s2) \<longrightarrow>
      run (Check n m f (ps1 @ p # ps2) rs) ctx s = (Inr True, s2)) \<and>
   (all_return False ps ctx s = Some s1 \<and> all_return True rs1 ctx s1 = Some s2 \<and>
    run r ctx s2 = (Inr False, s3) \<longrightarrow>
      run (Check n m f ps (rs1 @ r # rs2)) ctx s = (Inr False, s3)) \<and>
   (all_return False ps ctx s = Some s1 \<and> all_return True rs ctx s1 = Some s2 \<longrightarrow>
      run (Check n m f ps rs) ctx s = f ctx s2)"
proof (intro conjI impI)
  assume "all_return False ps1 ctx s = Some s1 \<and> run p ctx s1 = (Inr True, s2)"
  then show "run (Check n m f (ps1 @ p # ps2) rs) ctx s = (Inr True, s2)"
    by (simp add: run_parents_skip)
next
  assume a: "all_return False ps ctx s = Some s1 \<and> all_return True rs1 ctx s1 = Some s2 \<and>
    run r ctx s2 = (Inr False, s3)"
  then have "run_parents ps ctx s = (Inr False, s1)"
    using run_parents_skip[of ps ctx s s1 "[]"] by simp
  moreover have "run_required (rs1 @ r # rs2) ctx s1 = (Inr False, s3)"
    using a by (simp add: run_required_skip)
  ultimately show "run (Check n m f ps (rs1 @ r # rs2)) ctx s = (Inr False, s3)"
    by simp
next
  assume a: "all_return False ps ctx s = Some s1 \<and> all_return True rs ctx s1 = Some s2"
  then have "run_parents ps ctx s = (Inr False, s1)"
    using run_parents_skip[of ps ctx s s1 "[]"] by simp
  moreover have "run_required rs ctx s1 = (Inr True, s2)"
    using a run_required_skip[of rs ctx s1 s2 "[]"] by simp
  ultimately show "run (Check n m f ps rs) ctx s = f ctx s2"
    by simp
qed

theorem run_short_circuit_witness:
  "run (Check [] None (\<lambda>ctx k. (Inr True, Suc k))
         ([count_check False] @ count_check True # [count_check True]) [count_check True]) () 0
     = (Inr True, 2) \<and>
   run (Check [] None (\<lambda>ctx k. (Inr True, Suc k))
         [count_check False] ([count_check True] @ count_check False # [count_check True])) () 0
     = (Inr False, 3) \<and>
   run (Check [] None (\<lambda>ctx k. (Inr True, Suc k)) [count_check False] [count_check True]) () 0
     = (Inr True, 3)"
  using run_short_circuit[where s = "0::nat" and ?s1.0 = 1 and ?s2.0 = 2 and ?s3.0 = 3
      and ctx = "()"
      and ?ps1.0 = "[count_check False]" and ps = "[count_check False]"
      and p = "count_check True" and ?ps2.0 = "[count_check True]"
      and rs = "[count_check True]" and ?rs1.0 = "[count_check True]"
      and r = "count_check False" and ?rs2.0 = "[count_check True]"
      and f = "\<lambda>ctx k. (Inr True, Suc k)" and n = "[]" and m = None]
  by simp

section \<open>Properties of the lifecycle\<close>

lemma map_of_drop_None:
  assumes "map_of entries k = None"
  shows "map_of (drop n entries) k = None"
proof -
  have "k \<notin> fst ` set entries" using assms by (simp add: map_of_eq_None_iff)
  moreover have "set (drop n entries) \<subseteq> set entries" by (rule set_drop_subset)
  ultimately have "k \<notin> fst ` set (drop n entries)" by blast
  then show ?thesis by (simp add: map_of_eq_None_iff)
qed

lemma map_of_lru_setitem:
  "lru_setitem capacity entries k v = Inr cache \<Longrightarrow> map_of cache k = Some v"
  by (auto simp: lru_setitem_def lru_contains_def map_add_def delete_conv' map_of_drop_None
           split: if_splits)

lemma lru_setitem_ok: "0 < capacity \<Longrightarrow> \<exists>cache. lru_setitem capacity entries k v = Inr cache"
  by (auto simp: lru_setitem_def)

lemma dict_get_delete: "dict_get (AList.delete k d) k = None"
  by (simp add: dict_get_def delete_conv')

lemma run_cmd_context_fst: "fst (run_cmd_context message cmdname arg_str pfx cmd st) = next_context st"
  by (simp add: run_cmd_context_def Let_def log_def update_cmdnames_def)

lemma run_cmd_try_finally:
  assumes cap: "0 < maxsize prog"
    and res: "run_cmd_try prog message cmdname cmd ctx st = (r, st')"
  shows "dict_get (active_contexts st') (msg_id message) = None \<and>
         map_of (ctx_cache st') (msg_id message) = Some (flatten (context_store st' ctx))"
proof -
  obtain r1 st1 where run: "Command_run prog cmd ctx st = (r1, st1)"
    by (cases "Command_run prog cmd ctx st")
  define st2 where "st2 = (case r1 of
      Inl e \<Rightarrow> if is_Exception e
               then log (ExceptionExecuting cmdname e) (Mid (msg_id message)) ERROR st1 else st1
    | Inr u \<Rightarrow> st1)"
  obtain cache where c: "lru_setitem (maxsize prog) (ctx_cache st2) (msg_id message)
                             (flatten (context_store st2 ctx)) = Inr cache"
    using lru_setitem_ok[OF cap, of "ctx_cache st2" "msg_id message"
        "flatten (context_store st2 ctx)"] by blast
  have "st' = st2\<lparr>ctx_cache := cache,
                   active_contexts := AList.delete (msg_id message) (active_contexts st2)\<rparr>"
  proof (cases r1)
    case (Inl e)
    have run': "Command_run prog cmd ctx st = (Inl e, st1)" using run Inl by simp
    show ?thesis
    proof (cases "is_Exception e")
      case True
      have s2: "st2 = log (ExceptionExecuting cmdname e) (Mid (msg_id message)) ERROR st1"
        using True Inl by (simp add: st2_def)
      show ?thesis using res c True unfolding run_cmd_try_def run' s2 by simp
    next
      case False
      have s2: "st2 = st1" using False Inl by (simp add: st2_def)
      show ?thesis using res c False unfolding run_cmd_try_def run' s2 by simp
    qed
  next
    case (Inr u)
    have run': "Command_run prog cmd ctx st = (Inr u, st1)" using run Inr by simp
    have s2: "st2 = st1" using Inr by (simp add: st2_def)
    show ?thesis using res c unfolding run_cmd_try_def run' s2 by simp
  qed
  then show ?thesis
    using map_of_lru_setitem[OF c] by (simp add: dict_get_delete)
qed

text \<open>
  Claim C4: when a call of \<open>run_cmd\<close> for a registered command ends, whatever
  \<open>cmd.run\<close> did and however it ended (the program \<open>prog\<close> is arbitrary: the hooks, the
  function of the command and the platform may return, raise any exception or be
  cancelled), the identity of the message is not in the active contexts, and the entry
  of the cache for it is the flat form of the context of this call, as the context is in
  the final state. The capacity of the cache is not zero.
\<close>

theorem run_cmd_finally:
  assumes cap: "0 < maxsize prog"
    and cmd: "dict_get (cmd_names st) cmdname = Some cmd"
    and res: "run_cmd prog message cmdname arg_str pfx st = (r, st')"
  shows "dict_get (active_contexts st') (msg_id message) = None \<and>
         map_of (ctx_cache st') (msg_id message)
           = Some (flatten (context_store st' (next_context st)))"
proof -
  obtain ctx st1 where c: "run_cmd_context message cmdname arg_str pfx cmd st = (ctx, st1)"
    by (cases "run_cmd_context message cmdname arg_str pfx cmd st")
  have ctx: "ctx = next_context st"
    using run_cmd_context_fst[of message cmdname arg_str pfx cmd st] c by simp
  obtain cache where c1: "lru_setitem (maxsize prog) (ctx_cache st1) (msg_id message)
                     (flatten (context_store st1 ctx)) = Inr cache"
    using lru_setitem_ok[OF cap, of "ctx_cache st1" "msg_id message"
        "flatten (context_store st1 ctx)"] by blast
  have "run_cmd_try prog message cmdname cmd ctx
          (st1\<lparr>ctx_cache := cache,
               active_contexts := dict_set (active_contexts st1) (msg_id message) ctx\<rparr>) = (r, st')"
    using res cmd c c1 by (simp add: run_cmd_def)
  from run_cmd_try_finally[OF cap this] show ?thesis using ctx by simp
qed

theorem run_cmd_finally_witness:
  "0 < maxsize demo_program \<and>
   dict_get (cmd_names demo_client) (ustr ''ping'') = Some demo_command \<and>
   dict_get (active_contexts
      (snd (run_cmd demo_program demo_message (ustr ''ping'') [] (ustr ''!'') demo_client))) 1
     = None \<and>
   map_of (ctx_cache
      (snd (run_cmd demo_program demo_message (ustr ''ping'') [] (ustr ''!'') demo_client))) 1
     = Some (flatten (context_store
         (snd (run_cmd demo_program demo_message (ustr ''ping'') [] (ustr ''!'') demo_client)) 0)) \<and>
   dict_get (active_contexts
      (snd (run_cmd (raising_program KeyboardInterrupt) demo_message (ustr ''ping'') []
              (ustr ''!'') demo_client))) 1
     = None \<and>
   map_of (ctx_cache
      (snd (run_cmd (raising_program KeyboardInterrupt) demo_message (ustr ''ping'') []
              (ustr ''!'') demo_client))) 1
     = Some (flatten (context_store
         (snd (run_cmd (raising_program KeyboardInterrupt) demo_message (ustr ''ping'') []
                 (ustr ''!'') demo_client)) 0))"
proof -
  have cap: "0 < maxsize demo_program" "0 < maxsize (raising_program KeyboardInterrupt)"
    by (simp_all add: demo_program_def raising_program_def)
  have cmd: "dict_get (cmd_names demo_client) (ustr ''ping'') = Some demo_command"
    by (simp add: demo_client_def dict_get_def)
  have ids: "msg_id demo_message = 1" "next_context demo_client = 0"
    by (simp_all add: demo_message_def demo_client_def)
  show ?thesis
    using cap(1) cmd
      run_cmd_finally[OF cap(1) cmd surjective_pairing,
        of demo_message "[]" "ustr ''!''"]
      run_cmd_finally[OF cap(2) cmd surjective_pairing,
        of demo_message "[]" "ustr ''!''"]
    by (simp add: ids)
qed



section \<open>Properties of the reaction to an edit\<close>

lemma api_eq: "api prog call st = (r, st1) \<Longrightarrow> st1 = st\<lparr>api_calls := api_calls st @ [call]\<rparr>"
  by (auto simp: api_def)

lemma fetch_answer_0:
  "fetch_answer prog ch (m # ms) st 0 = api_result prog (api_calls st) (FetchMessage ch m)"
  by (simp add: fetch_answer_def)

lemma fetch_answer_Suc:
  "api_calls st1 = api_calls st @ [FetchMessage ch m] \<Longrightarrow>
   fetch_answer prog ch (m # ms) st (Suc i) = fetch_answer prog ch ms st1 i"
  by (simp add: fetch_answer_def)

lemma upt_Suc_shift: "[0..<Suc k] = 0 # map Suc [0..<k]"
  by (simp add: upt_conv_Cons map_Suc_upt del: upt_Suc)

lemma fetched_Suc:
  assumes "api_calls st1 = api_calls st @ [FetchMessage ch m]"
  shows "fetched prog ch (m # ms) st (Suc k)
           = (if isl (fetch_answer prog ch (m # ms) st 0) then [] else [m])
             @ fetched prog ch ms st1 k"
proof -
  have "filter (\<lambda>i. \<not> isl (fetch_answer prog ch (m # ms) st i)) (map Suc [0..<k])
          = map Suc (filter (\<lambda>i. \<not> isl (fetch_answer prog ch ms st1 i)) [0..<k])"
    by (simp add: filter_map o_def fetch_answer_Suc[OF assms])
  then show ?thesis
    unfolding fetched_def upt_Suc_shift by (simp add: o_def)
qed

lemma all_less_Suc_shift: "(\<forall>i<Suc k. P i) \<longleftrightarrow> P 0 \<and> (\<forall>i<k. P (Suc i))"
  by (auto simp: less_Suc_eq_0_disj)

lemma flat_clean_exit_Cons:
  assumes calls: "api_calls st1 = api_calls st @ [FetchMessage ch m]"
    and stay: "\<not> leaves_loop (fetch_answer prog ch (m # ms) st 0)"
    and ex: "flat_clean_exit prog ch ms st1 r k"
  shows "flat_clean_exit prog ch (m # ms) st r (Suc k)"
proof (cases r)
  case (Inr u)
  then have k: "k = length ms" and a: "\<forall>i<k. \<not> leaves_loop (fetch_answer prog ch ms st1 i)"
    using ex by (simp_all add: flat_clean_exit_def)
  have "\<forall>i<Suc k. \<not> leaves_loop (fetch_answer prog ch (m # ms) st i)"
    unfolding all_less_Suc_shift using stay a by (simp add: fetch_answer_Suc[OF calls])
  then show ?thesis using Inr k by (simp add: flat_clean_exit_def)
next
  case (Inl e)
  then have h: "0 < k" "fetch_answer prog ch ms st1 (k - 1) = Inl e" "\<not> is_Exception e"
    "\<forall>i<k - 1. \<not> leaves_loop (fetch_answer prog ch ms st1 i)"
    using ex by (simp_all add: flat_clean_exit_def)
  obtain j where j: "k = Suc j" using h(1) by (cases k) auto
  have "fetch_answer prog ch (m # ms) st (Suc j) = Inl e"
    using h(2) j by (simp add: fetch_answer_Suc[OF calls])
  moreover have "\<forall>i<Suc j. \<not> leaves_loop (fetch_answer prog ch (m # ms) st i)"
    unfolding all_less_Suc_shift using stay h(4) j by (simp add: fetch_answer_Suc[OF calls])
  ultimately show ?thesis using Inl h(3) j by (simp add: flat_clean_exit_def)
qed

lemma flat_clean_loop_effects:
  "flat_clean_loop prog ch ms st = (r, st') \<Longrightarrow> \<exists>k. flat_clean_result prog ch ms st r st' k"
proof (induction ms arbitrary: st)
  case Nil
  then have "r = Inr ()" "st' = st" by simp_all
  then have "flat_clean_result prog ch [] st r st' 0"
    by (simp add: flat_clean_result_def flat_clean_exit_def fetched_def)
  then show ?case by (intro exI)
next
  case (Cons m ms)
  obtain res st1 where a: "api prog (FetchMessage ch m) st = (res, st1)"
    by (cases "api prog (FetchMessage ch m) st")
  have st1: "st1 = st\<lparr>api_calls := api_calls st @ [FetchMessage ch m]\<rparr>"
    using api_eq[OF a] .
  have calls: "api_calls st1 = api_calls st @ [FetchMessage ch m]"
    using st1 by simp
  have res: "fetch_answer prog ch (m # ms) st 0 = res"
    using a by (simp add: api_def fetch_answer_0)
  show ?case
  proof (cases res)
    case (Inl e)
    show ?thesis
    proof (cases "is_Exception e")
      case True
      then have "flat_clean_loop prog ch ms st1 = (r, st')"
        using Cons.prems a Inl by simp
      from Cons.IH[OF this] obtain k where h: "flat_clean_result prog ch ms st1 r st' k"
        by (elim exE)
      have stay: "\<not> leaves_loop (fetch_answer prog ch (m # ms) st 0)"
        using res Inl True by (simp add: leaves_loop_def)
      have f: "fetched prog ch (m # ms) st (Suc k) = fetched prog ch ms st1 k"
        using fetched_Suc[OF calls, of prog ms k] res Inl by simp
      have e: "flat_clean_exit prog ch (m # ms) st r (Suc k)"
        using flat_clean_exit_Cons[OF calls stay] h by (simp add: flat_clean_result_def)
      have "flat_clean_result prog ch (m # ms) st r st' (Suc k)"
        using h st1 e unfolding flat_clean_result_def f by simp
      then show ?thesis by (intro exI)
    next
      case False
      then have r: "r = Inl e" "st' = st1" using Cons.prems a Inl by simp_all
      have nr: "\<not> raises_only_exceptions prog"
        using False res Inl unfolding raises_only_exceptions_def fetch_answer_0 by metis
      have f: "fetched prog ch (m # ms) st (Suc 0) = []"
        using res Inl by (simp add: fetched_def)
      have e: "flat_clean_exit prog ch (m # ms) st r (Suc 0)"
        using r res Inl False by (simp add: flat_clean_exit_def)
      have "flat_clean_result prog ch (m # ms) st r st' (Suc 0)"
        using r st1 nr e unfolding flat_clean_result_def f by simp
      then show ?thesis by (intro exI)
    qed
  next
    case (Inr x)
    let ?st2 = "ensure_future (MessageDelete m) st1"
    have "flat_clean_loop prog ch ms ?st2 = (r, st')"
      using Cons.prems a Inr by simp
    from Cons.IH[OF this] obtain k where h: "flat_clean_result prog ch ms ?st2 r st' k"
      by (elim exE)
    have calls2: "api_calls ?st2 = api_calls st @ [FetchMessage ch m]"
      using st1 by (simp add: ensure_future_def)
    have stay: "\<not> leaves_loop (fetch_answer prog ch (m # ms) st 0)"
      using res Inr by (simp add: leaves_loop_def)
    have f: "fetched prog ch (m # ms) st (Suc k) = m # fetched prog ch ms ?st2 k"
      using fetched_Suc[OF calls2, of prog ms k] res Inr by simp
    have e: "flat_clean_exit prog ch (m # ms) st r (Suc k)"
      using flat_clean_exit_Cons[OF calls2 stay] h by (simp add: flat_clean_result_def)
    have "flat_clean_result prog ch (m # ms) st r st' (Suc k)"
      using h st1 e unfolding flat_clean_result_def f by (simp add: ensure_future_def)
    then show ?thesis by (intro exI)
  qed
qed

text \<open>
  Claim C7, as stated: when the message is no longer active, the messages recorded in the
  flat context are deleted with the strategy of the active case, one bulk deletion when
  the client may manage the messages of the channel. In the example the client may, the
  flat context records the messages 10 and 11 of the channel 5, and the flat cleaner
  fetches each message and schedules the deletion of each; the cleaner of the active case
  makes the one call of the bulk deletion.
\<close>

theorem flat_cleanup_bulk_counterexample:
  "manage_messages demo_program 5 \<and>
   flat_cid demo_flat = Some 5 \<and> flat_sent_messages demo_flat = [10, 11] \<and>
   api_calls (snd (flat_command_response_cleaner demo_program demo_flat demo_replied))
     = [FetchMessage 5 10, FetchMessage 5 11] \<and>
   spawned (snd (flat_command_response_cleaner demo_program demo_flat demo_replied))
     = [MessageDelete 10, MessageDelete 11] \<and>
   api_calls (snd (active_command_response_cleaner demo_program 0 demo_replied))
     = [BulkDelete 5 [10, 11]]"
  by (simp add: demo_defs flatten_def new_context_def
      update_context_def flat_command_response_cleaner_def active_command_response_cleaner_def
      api_def ensure_future_def)

text \<open>
  Claim C7, amended: for every edit that changes the content of a message whose flat
  context is in the cache with \<open>cleanup_on_edit\<close> set, and which is not in the active
  contexts, the handler schedules the flat cleaner on the flat context (and then parses
  the message again if \<open>reparse_on_edit\<close> is set). The flat cleaner does nothing when the
  channel is not found; otherwise it fetches the recorded messages one by one, in order,
  and schedules exactly one deletion of each message the platform answered the fetch
  with, in that order, and of no other; a message whose fetch raises an \<open>Exception\<close>
  (not found, for one) is passed over, and the cleaner stops at the first fetch that
  raises anything else. It makes no other call: there is no bulk deletion, whatever the
  client may do in the channel.
\<close>

theorem flat_cleanup_fetches_each:
  "(msg_content before \<noteq> msg_content after \<and>
    lru_getitem (ctx_cache st) (msg_id after) = Some (flatctx, cache) \<and>
    flat_cleanup_on_edit flatctx \<and> dict_get (active_contexts st) (msg_id after) = None \<longrightarrow>
      on_message_edit prog before after st
        = Some (if flat_reparse_on_edit flatctx
                then parse_message prog after
                       (ensure_future (FlatCleaner flatctx) (st\<lparr>ctx_cache := cache\<rparr>))
                else (Inr (), ensure_future (FlatCleaner flatctx) (st\<lparr>ctx_cache := cache\<rparr>)))) \<and>
   (get_channel prog (flat_cid flatctx) = None \<longrightarrow>
      flat_command_response_cleaner prog flatctx st = (Inr (), st)) \<and>
   (get_channel prog (flat_cid flatctx) = Some ch \<and>
    flat_command_response_cleaner prog flatctx st = (r, st') \<longrightarrow>
      (\<exists>k. flat_clean_result prog ch (flat_sent_messages flatctx) st r st' k))"
proof (intro conjI impI)
  assume a: "msg_content before \<noteq> msg_content after \<and>
    lru_getitem (ctx_cache st) (msg_id after) = Some (flatctx, cache) \<and>
    flat_cleanup_on_edit flatctx \<and> dict_get (active_contexts st) (msg_id after) = None"
  then have "lru_contains (ctx_cache st) (msg_id after)"
    by (auto simp: lru_getitem_def lru_contains_def split: option.splits)
  moreover have "edit_cleanup prog after flatctx (st\<lparr>ctx_cache := cache\<rparr>)
                   = Some (ensure_future (FlatCleaner flatctx) (st\<lparr>ctx_cache := cache\<rparr>))"
    using a by (simp add: edit_cleanup_def)
  ultimately show "on_message_edit prog before after st
        = Some (if flat_reparse_on_edit flatctx
                then parse_message prog after
                       (ensure_future (FlatCleaner flatctx) (st\<lparr>ctx_cache := cache\<rparr>))
                else (Inr (), ensure_future (FlatCleaner flatctx) (st\<lparr>ctx_cache := cache\<rparr>)))"
    using a by (simp add: on_message_edit_def)
next
  assume "get_channel prog (flat_cid flatctx) = None"
  then show "flat_command_response_cleaner prog flatctx st = (Inr (), st)"
    by (simp add: flat_command_response_cleaner_def)
next
  assume "get_channel prog (flat_cid flatctx) = Some ch \<and>
    flat_command_response_cleaner prog flatctx st = (r, st')"
  then have "flat_clean_loop prog ch (flat_sent_messages flatctx) st = (r, st')"
    by (auto simp: flat_command_response_cleaner_def)
  then show "\<exists>k. flat_clean_result prog ch (flat_sent_messages flatctx) st r st' k"
    by (rule flat_clean_loop_effects)
qed

theorem flat_cleanup_fetches_each_witness:
  "msg_content demo_message \<noteq> msg_content demo_edited \<and>
   lru_getitem (ctx_cache demo_finished) (msg_id demo_edited) = Some (demo_flat, [(1, demo_flat)]) \<and>
   flat_cleanup_on_edit demo_flat \<and>
   dict_get (active_contexts demo_finished) (msg_id demo_edited) = None \<and>
   on_message_edit demo_program demo_message demo_edited demo_finished
     = Some (parse_message demo_program demo_edited
               (ensure_future (FlatCleaner demo_flat) demo_finished)) \<and>
   get_channel demo_program (flat_cid demo_flat) = Some 5 \<and>
   flat_command_response_cleaner demo_program demo_flat demo_finished
     = (Inr (), demo_finished\<lparr>api_calls := [FetchMessage 5 10, FetchMessage 5 11],
                               spawned := [MessageDelete 10, MessageDelete 11]\<rparr>)"
proof -
  let ?run = "flat_command_response_cleaner demo_program demo_flat demo_finished"
  have h: "msg_content demo_message \<noteq> msg_content demo_edited"
    "lru_getitem (ctx_cache demo_finished) (msg_id demo_edited) = Some (demo_flat, [(1, demo_flat)])"
    "flat_cleanup_on_edit demo_flat"
    "dict_get (active_contexts demo_finished) (msg_id demo_edited) = None"
    "flat_reparse_on_edit demo_flat"
    "get_channel demo_program (flat_cid demo_flat) = Some 5"
    "flat_sent_messages demo_flat = [10, 11]"
    "api_calls demo_finished = []" "spawned demo_finished = []"
    "demo_finished\<lparr>ctx_cache := [(1, demo_flat)]\<rparr> = demo_finished"
    by (simp_all add: demo_message_def demo_edited_def demo_finished_def demo_replied_def
        demo_client_def demo_flat_def demo_program_def demo_command_def flatten_def
        new_context_def update_context_def lru_getitem_def dict_get_def ustr_def)
  note inst = flat_cleanup_fetches_each[where before = demo_message and after = demo_edited
      and st = demo_finished and flatctx = demo_flat and cache = "[(1, demo_flat)]"
      and prog = demo_program and ch = 5 and r = "fst ?run" and st' = "snd ?run"]
  have edit: "on_message_edit demo_program demo_message demo_edited demo_finished
     = Some (parse_message demo_program demo_edited
               (ensure_future (FlatCleaner demo_flat) demo_finished))"
    using inst h by simp
  have "\<exists>k. flat_clean_result demo_program 5 [10, 11] demo_finished (fst ?run) (snd ?run) k"
    using inst h by simp
  then obtain k where k: "flat_clean_result demo_program 5 [10, 11] demo_finished
      (fst ?run) (snd ?run) k" by (elim exE)
  have only: "raises_only_exceptions demo_program"
    by (simp add: raises_only_exceptions_def demo_program_def)
  have r: "fst ?run = Inr ()" using k only by (simp add: flat_clean_result_def)
  then have k2: "k = 2" using k by (simp add: flat_clean_result_def flat_clean_exit_def)
  have two: "[0..<2] = [0, Suc 0]" by (simp add: numeral_2_eq_2)
  have f: "fetched demo_program 5 [10, 11] demo_finished 2 = [10, 11]"
    by (simp add: fetched_def fetch_answer_def demo_program_def two)
  have "snd ?run = demo_finished\<lparr>api_calls := [FetchMessage 5 10, FetchMessage 5 11],
                               spawned := [MessageDelete 10, MessageDelete 11]\<rparr>"
    using k unfolding k2 flat_clean_result_def f by (simp add: h(8,9))
  then have "?run = (Inr (), demo_finished\<lparr>api_calls := [FetchMessage 5 10, FetchMessage 5 11],
                               spawned := [MessageDelete 10, MessageDelete 11]\<rparr>)"
    using r by (metis prod.collapse)
  then show ?thesis using h edit by simp
qed

text \<open>
  Claim C8: in a cache of capacity 2, the insertion of the flat contexts of the messages
  \<open>A\<close>, \<open>B\<close> and \<open>C\<close>, in this order, evicts the entry of \<open>A\<close> and keeps those of \<open>B\<close> and
  \<open>C\<close>; a lookup of \<open>A\<close> before the insertion of \<open>C\<close> makes \<open>B\<close> the entry that is
  evicted. With the entries of \<open>B\<close> and \<open>C\<close> in the cache, an edit of \<open>A\<close> that changes its
  content is handled by \<open>on_message\<close>, which parses it as any new message.
\<close>

theorem lru_eviction_then_edit_is_new:
  assumes "A \<noteq> B" and "A \<noteq> C" and "B \<noteq> C"
  shows "lru_setitem 2 [] A a = Inr [(A, a)] \<and>
         lru_setitem 2 [(A, a)] B b = Inr [(A, a), (B, b)] \<and>
         lru_setitem 2 [(A, a), (B, b)] C c = Inr [(B, b), (C, c)] \<and>
         \<not> lru_contains [(B, b), (C, c)] A \<and>
         lru_contains [(B, b), (C, c)] B \<and> lru_contains [(B, b), (C, c)] C \<and>
         lru_getitem [(A, a), (B, b)] A = Some (a, [(B, b), (A, a)]) \<and>
         lru_setitem 2 [(B, b), (A, a)] C c = Inr [(A, a), (C, c)] \<and>
         (ctx_cache st = [(B, b), (C, c)] \<and> msg_id after = A \<and>
          msg_content before \<noteq> msg_content after \<longrightarrow>
            on_message_edit prog before after st = Some (on_message prog after st) \<and>
            on_message prog after st = parse_message prog after st)"
  using assms
  by (auto simp: lru_setitem_def lru_contains_def lru_getitem_def on_message_edit_def
      on_message_def)

theorem lru_eviction_then_edit_is_new_witness:
  "(1::nat) \<noteq> 2 \<and> (1::nat) \<noteq> 3 \<and> (2::nat) \<noteq> 3 \<and>
   lru_setitem 2 [(1, demo_flat), (2, demo_flat)] 3 demo_flat = Inr [(2, demo_flat), (3, demo_flat)] \<and>
   \<not> lru_contains [(2, demo_flat), (3, demo_flat)] 1 \<and>
   msg_id demo_edited = 1 \<and> msg_content demo_message \<noteq> msg_content demo_edited \<and>
   on_message_edit demo_program demo_message demo_edited
      (demo_client\<lparr>ctx_cache := [(2, demo_flat), (3, demo_flat)]\<rparr>)
     = Some (on_message demo_program demo_edited
               (demo_client\<lparr>ctx_cache := [(2, demo_flat), (3, demo_flat)]\<rparr>))"
proof -
  have h: "msg_id demo_edited = 1" "msg_content demo_message \<noteq> msg_content demo_edited"
    "ctx_cache (demo_client\<lparr>ctx_cache := [(2, demo_flat), (3, demo_flat)]\<rparr>)
       = [(2, demo_flat), (3, demo_flat)]"
    by (simp_all add: demo_edited_def demo_message_def ustr_def)
  have d: "(1::nat) \<noteq> 2" "(1::nat) \<noteq> 3" "(2::nat) \<noteq> 3" by simp_all
  note inst = lru_eviction_then_edit_is_new[OF d, where a = demo_flat and b = demo_flat
      and c = demo_flat and before = demo_message and after = demo_edited and prog = demo_program
      and st = "demo_client\<lparr>ctx_cache := [(2, demo_flat), (3, demo_flat)]\<rparr>"]
  show ?thesis using inst h by simp
qed

section \<open>Properties of the dispatch\<close>

lemma ascii_lower_no_upper: "\<forall>s. \<forall>c \<in> set (ascii_lower s). \<not> ascii_upper c"
  by (auto simp: ascii_lower_def ascii_upper_def)

lemma foldl_longest:
  fixes b :: pystr
  shows "foldl (\<lambda>best x. if length best < length x then x else best) b xs \<in> insert b (set xs) \<and>
   (\<forall>x \<in> insert b (set xs).
      length x \<le> length (foldl (\<lambda>best x. if length best < length x then x else best) b xs))"
proof (induction xs arbitrary: b)
  case Nil
  then show ?case by simp
next
  case (Cons y ys)
  let ?f = "\<lambda>best x. if length best < length x then x else (best :: pystr)"
  show ?case
  proof (cases "length b < length y")
    case True
    then have e: "foldl ?f b (y # ys) = foldl ?f y ys" by simp
    show ?thesis unfolding e using Cons.IH[of y] True by fastforce
  next
    case False
    then have e: "foldl ?f b (y # ys) = foldl ?f b ys" by simp
    show ?thesis unfolding e using Cons.IH[of b] False by fastforce
  qed
qed

lemma max_by_len_in: "names \<noteq> [] \<Longrightarrow> max_by_len names \<in> set names"
  using foldl_longest[of "hd names" "tl names"]
  by (cases names) (auto simp: max_by_len_def)

lemma max_by_len_max: "n \<in> set names \<Longrightarrow> length n \<le> length (max_by_len names)"
  using foldl_longest[of "hd names" "tl names"]
  by (cases names) (auto simp: max_by_len_def)

lemma matching_names_iff:
  "cmdname \<in> set (matching_names prog st sc) \<longleftrightarrow>
     cmdname \<in> fst ` set (cmd_names st) \<and>
     str_lower prog (take (length cmdname) sc) = cmdname"
  by (auto simp: matching_names_def)

lemma dispatch_skip:
  "\<forall>p \<in> set ps1. matching_names prog st (strip (drop (length p) content)) = [] \<Longrightarrow>
   dispatch prog message content (ps1 @ ps2) st = dispatch prog message content ps2 st"
  by (induction ps1) (simp_all add: Let_def)


text \<open>
  Claim C10, as stated: the names are compared with the lowercased slice of the content,
  the longest matching name is dispatched, and a registered name that holds an uppercase
  character can never match. The last part fails: the name made of the uppercase letter
  U+03D2 is what \<open>str.lower\<close> returns for the slice of the message \<open>!\<close> U+03D2, so the
  name matches and its command is run.
\<close>

theorem dispatch_unmapped_uppercase_counterexample:
  "str_lower demo_program [upsilon_hook] = [upsilon_hook] \<and>
   matching_names demo_program demo_upsilon
      (strip (drop (length (ustr ''!'')) (ustr ''!'' @ [upsilon_hook])))
     = [[upsilon_hook]] \<and>
   dispatch demo_program demo_message (ustr ''!'' @ [upsilon_hook]) [ustr ''!''] demo_upsilon
     = Some (run_cmd demo_program demo_message [upsilon_hook] [] (ustr ''!'') demo_upsilon)"
proof -
  have l: "str_lower demo_program [upsilon_hook] = [upsilon_hook]"
    by (simp add: demo_program_def ascii_lower_def upsilon_hook_def)
  have sc: "strip (drop (length (ustr ''!'')) (ustr ''!'' @ [upsilon_hook])) = [upsilon_hook]"
    by (simp add: py_defs upsilon_hook_def)
  have m: "matching_names demo_program demo_upsilon [upsilon_hook] = [[upsilon_hook]]"
    by (simp add: matching_names_def demo_upsilon_def demo_client_def l)
  have rest: "strip [] = []"
    by (simp add: py_defs)
  have sc': "strip [upsilon_hook] = [upsilon_hook]"
    by (simp add: py_defs upsilon_hook_def)
  have d: "dispatch demo_program demo_message (ustr ''!'' @ [upsilon_hook]) [ustr ''!''] demo_upsilon
     = Some (run_cmd demo_program demo_message [upsilon_hook] [] (ustr ''!'') demo_upsilon)"
    by (simp add: Let_def sc sc' m max_by_len_def rest)
  show ?thesis using l m d unfolding sc by simp
qed

text \<open>
  Claim C10, amended: for a message whose content starts with the prefix \<open>pfx\<close>, with
  \<open>sc\<close> the content after the prefix, stripped, a registered name matches exactly when it
  equals the lowercased slice of \<open>sc\<close> of its own length. When the prefixes tried before
  \<open>pfx\<close> match no name and \<open>pfx\<close> matches some, the command run is the matching name
  \<open>max_by_len M\<close>, which is strictly longer than every other matching name, with the rest
  of \<open>sc\<close> after the name, stripped, as arguments. A name that \<open>str.lower\<close> never returns
  matches no message; in particular, as long as \<open>str.lower\<close> never returns one of the
  letters \<open>A\<close> to \<open>Z\<close>, a name that holds one of them matches no message. An uppercase
  character that \<open>str.lower\<close> leaves unchanged does not keep a name from matching.
\<close>

theorem dispatch_longest_name:
  fixes prog :: program and st :: client and content pfx cmdname :: pystr
  defines "sc \<equiv> strip (drop (length pfx) content)"
  defines "M \<equiv> matching_names prog st (strip (drop (length pfx) content))"
  shows "(cmdname \<in> set M \<longleftrightarrow>
            cmdname \<in> fst ` set (cmd_names st) \<and>
            str_lower prog (take (length cmdname) sc) = cmdname) \<and>
         (M \<noteq> [] \<and>
          (\<forall>p \<in> set ps1. matching_names prog st (strip (drop (length p) content)) = []) \<longrightarrow>
            dispatch prog message content (ps1 @ pfx # ps2) st
              = Some (run_cmd prog message (max_by_len M)
                        (strip (drop (length (max_by_len M)) sc)) pfx st) \<and>
            max_by_len M \<in> set M \<and>
            (\<forall>n \<in> set M. n \<noteq> max_by_len M \<longrightarrow> length n < length (max_by_len M))) \<and>
         ((\<forall>s. str_lower prog s \<noteq> cmdname) \<longrightarrow> cmdname \<notin> set M) \<and>
         ((\<forall>s. \<forall>c \<in> set (str_lower prog s). \<not> ascii_upper c) \<and>
          (\<exists>c \<in> set cmdname. ascii_upper c) \<longrightarrow> cmdname \<notin> set M)"
proof (intro conjI impI)
  show "cmdname \<in> set M \<longleftrightarrow>
            cmdname \<in> fst ` set (cmd_names st) \<and>
            str_lower prog (take (length cmdname) sc) = cmdname"
    unfolding M_def sc_def by (rule matching_names_iff)
next
  assume a: "M \<noteq> [] \<and>
          (\<forall>p \<in> set ps1. matching_names prog st (strip (drop (length p) content)) = [])"
  then have "dispatch prog message content (ps1 @ pfx # ps2) st
               = dispatch prog message content (pfx # ps2) st"
    using dispatch_skip[of ps1 prog st content message "pfx # ps2"] by simp
  then show "dispatch prog message content (ps1 @ pfx # ps2) st
              = Some (run_cmd prog message (max_by_len M)
                        (strip (drop (length (max_by_len M)) sc)) pfx st)"
    using a unfolding M_def sc_def by (simp add: Let_def)
  show "max_by_len M \<in> set M" using a max_by_len_in by blast
  show "\<forall>n \<in> set M. n \<noteq> max_by_len M \<longrightarrow> length n < length (max_by_len M)"
  proof (intro ballI impI)
    fix n
    assume n: "n \<in> set M" and ne: "n \<noteq> max_by_len M"
    have le: "length n \<le> length (max_by_len M)" using n by (rule max_by_len_max)
    have m: "max_by_len M \<in> set M" using a max_by_len_in by blast
    have "length n \<noteq> length (max_by_len M)"
    proof
      assume eq: "length n = length (max_by_len M)"
      have "str_lower prog (take (length n) sc) = n"
        using n unfolding M_def sc_def by (simp add: matching_names_iff)
      moreover have "str_lower prog (take (length (max_by_len M)) sc) = max_by_len M"
        using m unfolding M_def sc_def by (simp add: matching_names_iff)
      ultimately show False using eq ne by simp
    qed
    then show "length n < length (max_by_len M)" using le by simp
  qed
next
  assume never: "\<forall>s. str_lower prog s \<noteq> cmdname"
  show "cmdname \<notin> set M"
  proof
    assume "cmdname \<in> set M"
    then have "str_lower prog (take (length cmdname) sc) = cmdname"
      unfolding M_def sc_def by (simp add: matching_names_iff)
    then show False using never by blast
  qed
next
  assume u: "(\<forall>s. \<forall>c \<in> set (str_lower prog s). \<not> ascii_upper c) \<and>
          (\<exists>c \<in> set cmdname. ascii_upper c)"
  show "cmdname \<notin> set M"
  proof
    assume "cmdname \<in> set M"
    then have "str_lower prog (take (length cmdname) sc) = cmdname"
      unfolding M_def sc_def by (simp add: matching_names_iff)
    then have "\<forall>c \<in> set cmdname. \<not> ascii_upper c" using u by metis
    then show False using u by blast
  qed
qed

theorem dispatch_longest_name_witness:
  "matching_names demo_program demo_names (strip (drop (length (ustr ''!'')) (ustr ''!helpme now'')))
     = [ustr ''help'', ustr ''helpme''] \<and>
   dispatch demo_program demo_message (ustr ''!helpme now'') ([] @ ustr ''!'' # []) demo_names
     = Some (run_cmd demo_program demo_message (ustr ''helpme'') (ustr ''now'') (ustr ''!'')
               demo_names) \<and>
   ustr ''Ping'' \<notin> set (matching_names demo_program demo_names
                            (strip (drop (length (ustr ''!'')) (ustr ''!Ping''))))"
proof -
  have low: "\<forall>s. \<forall>c \<in> set (str_lower demo_program s). \<not> ascii_upper c"
    using ascii_lower_no_upper by (simp add: demo_program_def)
  have m: "matching_names demo_program demo_names
             (strip (drop (length (ustr ''!'')) (ustr ''!helpme now'')))
           = [ustr ''help'', ustr ''helpme'']"
    by (simp add: matching_names_def demo_program_def demo_names_def demo_client_def
        ascii_lower_def py_defs)
  have mx: "max_by_len [ustr ''help'', ustr ''helpme''] = ustr ''helpme''"
    by (simp add: max_by_len_def ustr_def)
  have rest: "strip (drop (length (ustr ''helpme''))
                       (strip (drop (length (ustr ''!'')) (ustr ''!helpme now'')))) = ustr ''now''"
    by (simp add: py_defs)
  have up: "\<exists>c \<in> set (ustr ''Ping''). ascii_upper c"
    by (simp add: ustr_def ascii_upper_def)
  note i1 = dispatch_longest_name[where prog = demo_program and st = demo_names
      and pfx = "ustr ''!''"
      and content = "ustr ''!helpme now''" and ?ps1.0 = "[]" and ?ps2.0 = "[]"
      and message = demo_message and cmdname = "ustr ''helpme''"]
  note i2 = dispatch_longest_name[where prog = demo_program and st = demo_names
      and pfx = "ustr ''!''"
      and content = "ustr ''!Ping''" and ?ps1.0 = "[]" and ?ps2.0 = "[]"
      and message = demo_message and cmdname = "ustr ''Ping''"]
  have "dispatch demo_program demo_message (ustr ''!helpme now'') ([] @ ustr ''!'' # []) demo_names
     = Some (run_cmd demo_program demo_message (ustr ''helpme'') (ustr ''now'') (ustr ''!'')
               demo_names)"
    using i1 unfolding m mx rest by simp
  moreover have "ustr ''Ping'' \<notin> set (matching_names demo_program demo_names
                            (strip (drop (length (ustr ''!'')) (ustr ''!Ping''))))"
    using i2 up low by blast
  ultimately show ?thesis using m by simp
qed

section \<open>Properties of the cleanup of a running command\<close>

lemma wait_removed_funpow:
  "dict_get (active_contexts ((sleep prog ^^ n) st)) mid = None \<Longrightarrow>
   (\<forall>i<n. dict_get (active_contexts ((sleep prog ^^ i) st)) mid \<noteq> None) \<Longrightarrow>
   wait_removed prog mid st = Some ((sleep prog ^^ n) st)"
proof (induction n arbitrary: st)
  case 0
  then show ?case by (simp add: wait_removed.simps)
next
  case (Suc n)
  have here: "dict_get (active_contexts st) mid \<noteq> None"
    using Suc.prems(2) by (metis funpow_0 zero_less_Suc)
  have "dict_get (active_contexts ((sleep prog ^^ n) (sleep prog st))) mid = None"
    using Suc.prems(1) by (simp add: funpow_swap1)
  moreover have "\<forall>i<n. dict_get (active_contexts ((sleep prog ^^ i) (sleep prog st))) mid \<noteq> None"
  proof (intro allI impI)
    fix i assume "i < n"
    then have "dict_get (active_contexts ((sleep prog ^^ Suc i) st)) mid \<noteq> None"
      using Suc.prems(2) by (meson Suc_less_eq)
    then show "dict_get (active_contexts ((sleep prog ^^ i) (sleep prog st))) mid \<noteq> None"
      by (simp add: funpow_swap1)
  qed
  ultimately have "wait_removed prog mid (sleep prog st) = Some ((sleep prog ^^ n) (sleep prog st))"
    by (rule Suc.IH)
  then show ?case using here
    by (subst wait_removed.simps) (simp add: funpow_swap1)
qed

lemma wait_removed_Some:
  "wait_removed prog mid st = Some st' \<Longrightarrow>
   \<exists>n. dict_get (active_contexts ((sleep prog ^^ n) st)) mid = None \<and>
       (\<forall>i<n. dict_get (active_contexts ((sleep prog ^^ i) st)) mid \<noteq> None) \<and>
       st' = (sleep prog ^^ n) st"
proof (induction rule: wait_removed.raw_induct[rotated 1, consumes 1])
  case (1 wait prog mid st st')
  show ?case
  proof (cases "dict_get (active_contexts st) mid = None")
    case True
    then have "st' = st" using 1(2) by simp
    then have "dict_get (active_contexts ((sleep prog ^^ 0) st)) mid = None \<and>
       (\<forall>i<0. dict_get (active_contexts ((sleep prog ^^ i) st)) mid \<noteq> None) \<and>
       st' = (sleep prog ^^ 0) st" using True by simp
    then show ?thesis by (intro exI)
  next
    case False
    then have "wait prog mid (sleep prog st) = Some st'" using 1(2) by simp
    from 1(1)[OF this] obtain n where n:
      "dict_get (active_contexts ((sleep prog ^^ n) (sleep prog st))) mid = None"
      "\<forall>i<n. dict_get (active_contexts ((sleep prog ^^ i) (sleep prog st))) mid \<noteq> None"
      "st' = (sleep prog ^^ n) (sleep prog st)" by (elim exE conjE)
    have a: "dict_get (active_contexts ((sleep prog ^^ Suc n) st)) mid = None"
      using n(1) by (simp add: funpow_swap1)
    have b: "\<forall>i<Suc n. dict_get (active_contexts ((sleep prog ^^ i) st)) mid \<noteq> None"
    proof (intro allI impI)
      fix i assume i: "i < Suc n"
      show "dict_get (active_contexts ((sleep prog ^^ i) st)) mid \<noteq> None"
      proof (cases i)
        case 0
        then show ?thesis using False by simp
      next
        case (Suc j)
        then have "j < n" using i by simp
        then show ?thesis using n(2) Suc by (simp add: funpow_swap1)
      qed
    qed
    have c: "st' = (sleep prog ^^ Suc n) st" using n(3) by (simp add: funpow_swap1)
    from a b c show ?thesis by (intro exI[of _ "Suc n"] conjI)
  qed
qed

lemma gather_deletes_state:
  "snd (gather_deletes prog ms st) = st\<lparr>api_calls := api_calls st @ map DeleteMessage ms\<rparr>"
proof (induction ms arbitrary: st)
  case Nil
  then show ?case by simp
next
  case (Cons m ms)
  obtain res st1 where a: "api prog (DeleteMessage m) st = (res, st1)"
    by (cases "api prog (DeleteMessage m) st")
  have st1: "st1 = st\<lparr>api_calls := api_calls st @ [DeleteMessage m]\<rparr>"
    using a by (auto simp: api_def)
  show ?case
  proof (cases res)
    case (Inl e)
    then show ?thesis using a Cons.IH[of st1] st1 by simp
  next
    case (Inr x)
    then show ?thesis using a Cons.IH[of st1] st1 by simp
  qed
qed

lemma not_found_passes_snd:
  "snd (case raised of None \<Rightarrow> (Inr (), st1) | Some NotFound \<Rightarrow> (Inr (), st1)
        | Some e \<Rightarrow> (Inl e, st1)) = st1"
proof (cases raised)
  case None
  then show ?thesis by simp
next
  case (Some e)
  then show ?thesis by (cases e) simp_all
qed

lemma active_cleaner_state:
  "snd (active_command_response_cleaner prog ctx s)
     = s\<lparr>api_calls := api_calls s @
           (if ctx_guild (context_store s ctx) \<noteq> None \<and>
               manage_messages prog (ctx_ch (context_store s ctx))
            then [BulkDelete (ctx_ch (context_store s ctx))
                    (ctx_sent_messages (context_store s ctx))]
            else map DeleteMessage (ctx_sent_messages (context_store s ctx)))\<rparr>"
proof -
  define c where "c = context_store s ctx"
  define attempt where "attempt =
            (if ctx_guild c \<noteq> None \<and> manage_messages prog (ctx_ch c) then
               (case api prog (BulkDelete (ctx_ch c) (ctx_sent_messages c)) s of
                  (Inl e, st') \<Rightarrow> (Some e, st')
                | (Inr _, st') \<Rightarrow> (None, st'))
             else gather_deletes prog (ctx_sent_messages c) s)"
  have run: "active_command_response_cleaner prog ctx s
               = (case fst attempt of None \<Rightarrow> (Inr (), snd attempt)
                  | Some NotFound \<Rightarrow> (Inr (), snd attempt)
                  | Some e \<Rightarrow> (Inl e, snd attempt))"
    unfolding active_command_response_cleaner_def Let_def c_def[symmetric] attempt_def[symmetric]
    by (simp add: split_beta)
  have "snd attempt = s\<lparr>api_calls := api_calls s @
           (if ctx_guild c \<noteq> None \<and> manage_messages prog (ctx_ch c)
            then [BulkDelete (ctx_ch c) (ctx_sent_messages c)]
            else map DeleteMessage (ctx_sent_messages c))\<rparr>"
  proof (cases "ctx_guild c \<noteq> None \<and> manage_messages prog (ctx_ch c)")
    case True
    obtain res st1 where a: "api prog (BulkDelete (ctx_ch c) (ctx_sent_messages c)) s = (res, st1)"
      by (cases "api prog (BulkDelete (ctx_ch c) (ctx_sent_messages c)) s")
    have st1: "st1 = s\<lparr>api_calls := api_calls s @ [BulkDelete (ctx_ch c) (ctx_sent_messages c)]\<rparr>"
      using a by (auto simp: api_def)
    have "snd attempt = st1" unfolding attempt_def using True a by (cases res) simp_all
    then show ?thesis using True st1 by simp
  next
    case False
    have "attempt = gather_deletes prog (ctx_sent_messages c) s"
      unfolding attempt_def by (rule if_not_P) (rule False)
    then have "snd attempt = snd (gather_deletes prog (ctx_sent_messages c) s)"
      by simp
    moreover have "(if ctx_guild c \<noteq> None \<and> manage_messages prog (ctx_ch c)
            then [BulkDelete (ctx_ch c) (ctx_sent_messages c)]
            else map DeleteMessage (ctx_sent_messages c)) = map DeleteMessage (ctx_sent_messages c)"
      by (rule if_not_P) (rule False)
    ultimately show ?thesis by (simp only: gather_deletes_state)
  qed
  then show ?thesis unfolding run not_found_passes_snd c_def .
qed

lemma demo_active_facts:
  "msg_id demo_edited = 1"
  "msg_content demo_message \<noteq> msg_content demo_edited"
  "ctx_cache demo_active = [(1, demo_initial_flat)]"
  "active_contexts demo_active = [(1, 0)]"
  "ctx_tasks (context_store demo_active 0) = [0]"
  "cancelled demo_active = []"
  "flat_cleanup_on_edit demo_initial_flat"
  "flat_reparse_on_edit demo_initial_flat"
  by (simp_all add: demo_edited_def demo_message_def demo_active_def demo_replied_def
      demo_client_def demo_initial_flat_def update_context_def flatten_def new_context_def
      demo_command_def ustr_def)

lemma demo_once_facts:
  "ctx_cache demo_once = [(1, demo_flat)]"
  "active_contexts demo_once = []"
  "cancelled demo_once = [0]"
  "spawned demo_once = [ActiveCleaner 0]"
  "api_calls demo_once = []"
  "flat_cleanup_on_edit demo_flat"
  "flat_reparse_on_edit demo_flat"
  "flat_cid demo_flat = Some 5"
  "flat_sent_messages demo_flat = [10, 11]"
  "ctx_guild (context_store demo_once 0) = Some 7"
  "ctx_ch (context_store demo_once 0) = 5"
  "ctx_sent_messages (context_store demo_once 0) = [10, 11]"
  by (simp_all add: demo_once_def finishing_program_def demo_program_def demo_active_def
      demo_replied_def demo_flat_def demo_client_def demo_message_def demo_command_def
      update_context_def flatten_def new_context_def ensure_future_def)

lemma demo_no_dispatch:
  "cmd_names st = [(ustr ''ping'', demo_command)] \<Longrightarrow> prefix st = Some (ustr ''!'') \<Longrightarrow>
   extra_message_parsers st = [] \<Longrightarrow>
   parse_message finishing_program demo_edited st = (Inr (), st)"
  by (simp add: parse_message_def finishing_program_def demo_program_def
      cmdClient_valid_prefixes_def demo_edited_def demo_message_def startswith_def
      matching_names_def ascii_lower_def py_defs)

lemma demo_once_client:
  "cmd_names demo_once = [(ustr ''ping'', demo_command)]" "prefix demo_once = Some (ustr ''!'')"
  "extra_message_parsers demo_once = []"
  "cmd_names demo_twice = [(ustr ''ping'', demo_command)]" "prefix demo_twice = Some (ustr ''!'')"
  "extra_message_parsers demo_twice = []"
  by (simp_all add: demo_twice_def demo_once_def finishing_program_def demo_program_def
      demo_active_def demo_replied_def demo_client_def update_context_def ensure_future_def)

lemma demo_first_cleanup:
  "edit_cleanup finishing_program demo_edited demo_initial_flat demo_active = Some demo_once"
proof -
  let ?stc = "demo_active\<lparr>cancelled := cancelled demo_active
                                  @ ctx_tasks (context_store demo_active 0)\<rparr>"
  have h: "flat_cleanup_on_edit demo_initial_flat"
    "dict_get (active_contexts demo_active) (msg_id demo_edited) = Some 0"
    "ctx_tasks (context_store demo_active 0) \<noteq> []"
    by (simp_all add: demo_active_facts dict_get_def)
  have ec: "edit_cleanup finishing_program demo_edited demo_initial_flat demo_active
          = map_option (ensure_future (ActiveCleaner 0))
              (wait_removed finishing_program (msg_id demo_edited) ?stc)"
    by (simp add: edit_cleanup_def h)
  have stc: "?stc = demo_active\<lparr>cancelled := [0]\<rparr>" by (simp add: demo_active_facts)
  have "wait_removed finishing_program (msg_id demo_edited) ?stc
          = Some ((sleep finishing_program ^^ 1) ?stc)"
  proof (rule wait_removed_funpow)
    show "dict_get (active_contexts ((sleep finishing_program ^^ 1) ?stc)) (msg_id demo_edited) = None"
      by (simp add: finishing_program_def demo_program_def dict_get_def demo_active_facts)
    show "\<forall>i<1. dict_get (active_contexts ((sleep finishing_program ^^ i) ?stc)) (msg_id demo_edited)
            \<noteq> None"
      by (simp add: dict_get_def demo_active_facts)
  qed
  then have "wait_removed finishing_program (msg_id demo_edited) ?stc
          = Some (sleep finishing_program (demo_active\<lparr>cancelled := [0]\<rparr>))"
    unfolding stc by simp
  then show ?thesis unfolding ec by (simp add: demo_once_def)
qed

text \<open>
  Claim C3, as stated: after an edit of a message that is still active, every task is
  cancelled once, the handler waits until the message has left the active contexts, and
  each recorded response then receives exactly one delete attempt, without duplicates
  even if the cleanup is triggered twice for the same edit. In the example the edit is
  delivered twice. The first delivery cancels the task 0, waits one sleep and schedules
  the cleaner of the context, whose bulk deletion names the messages 10 and 11. The second
  delivery finds the flat context in the cache and the message no longer active, and
  schedules the flat cleaner, which fetches the messages 10 and 11 and schedules the
  deletion of each: both messages get a second delete attempt.
\<close>

theorem edit_cleanup_twice_counterexample:
  "on_message_edit finishing_program demo_message demo_edited demo_active
     = Some (Inr (), demo_once) \<and>
   on_message_edit finishing_program demo_message demo_edited demo_once
     = Some (Inr (), demo_twice) \<and>
   cancelled demo_twice = [0] \<and>
   spawned demo_twice = [ActiveCleaner 0, FlatCleaner demo_flat] \<and>
   api_calls (snd (active_command_response_cleaner finishing_program 0 demo_twice))
     = [BulkDelete 5 [10, 11]] \<and>
   spawned (snd (flat_command_response_cleaner finishing_program demo_flat demo_twice))
     = [ActiveCleaner 0, FlatCleaner demo_flat, MessageDelete 10, MessageDelete 11]"
proof -
  have g0: "lru_contains (ctx_cache demo_active) (msg_id demo_edited)"
    "lru_getitem (ctx_cache demo_active) (msg_id demo_edited)
       = Some (demo_initial_flat, ctx_cache demo_active)"
    by (simp_all add: lru_contains_def lru_getitem_def demo_active_facts)
  have p1: "parse_message finishing_program demo_edited demo_once = (Inr (), demo_once)"
    by (rule demo_no_dispatch) (rule demo_once_client)+
  have first: "on_message_edit finishing_program demo_message demo_edited demo_active
     = Some (Inr (), demo_once)"
    by (simp add: on_message_edit_def demo_active_facts(2,8) g0 demo_first_cleanup p1)
  have g1: "lru_contains (ctx_cache demo_once) (msg_id demo_edited)"
    "lru_getitem (ctx_cache demo_once) (msg_id demo_edited) = Some (demo_flat, ctx_cache demo_once)"
    by (simp_all add: lru_contains_def lru_getitem_def demo_once_facts demo_active_facts(1))
  have e1: "edit_cleanup finishing_program demo_edited demo_flat demo_once = Some demo_twice"
    by (simp add: edit_cleanup_def demo_once_facts dict_get_def demo_twice_def)
  have p2: "parse_message finishing_program demo_edited demo_twice = (Inr (), demo_twice)"
    by (rule demo_no_dispatch) (rule demo_once_client)+
  have second: "on_message_edit finishing_program demo_message demo_edited demo_once
     = Some (Inr (), demo_twice)"
    by (simp add: on_message_edit_def demo_active_facts(2) demo_once_facts(7) g1 e1 p2)
  have rest: "cancelled demo_twice = [0]"
    "spawned demo_twice = [ActiveCleaner 0, FlatCleaner demo_flat]"
    "api_calls (snd (active_command_response_cleaner finishing_program 0 demo_twice))
     = [BulkDelete 5 [10, 11]]"
    "spawned (snd (flat_command_response_cleaner finishing_program demo_flat demo_twice))
     = [ActiveCleaner 0, FlatCleaner demo_flat, MessageDelete 10, MessageDelete 11]"
    by (simp_all add: demo_twice_def ensure_future_def demo_once_facts
        active_command_response_cleaner_def flat_command_response_cleaner_def api_def
        finishing_program_def demo_program_def)
  show ?thesis using first second rest by simp
qed

text \<open>
  Claim C3, amended: for an edit of a message whose flat context has \<open>cleanup_on_edit\<close>
  set and which is in the active contexts with a context that has tasks, one run of the
  cleanup calls \<open>cancel\<close> once on each task of the context, in order (the state \<open>stc\<close>),
  then sleeps until the message has left the active contexts: it ends after the first
  number \<open>n\<close> of sleeps at which the message is gone, with one cleaner of the context
  scheduled, and it does not end when the message never leaves. The cleaner, when it
  runs, makes one call of the bulk deletion with the messages the context has recorded if
  the context has a guild and the client may manage the messages of the channel, and one
  call of deletion for each recorded message otherwise. Nothing joins two deliveries of
  one edit: each schedules a cleaner of its own.
\<close>

theorem edit_cleanup_cancels_then_waits:
  fixes prog :: program and after :: message and st st' s :: client and ctx :: nat
  defines "stc \<equiv> st\<lparr>cancelled := cancelled st @ ctx_tasks (context_store st ctx)\<rparr>"
  assumes clean: "flat_cleanup_on_edit flatctx"
    and act: "dict_get (active_contexts st) (msg_id after) = Some ctx"
    and tasks: "ctx_tasks (context_store st ctx) \<noteq> []"
  shows "(edit_cleanup prog after flatctx st = Some st' \<longleftrightarrow>
            (\<exists>n. dict_get (active_contexts ((sleep prog ^^ n) stc)) (msg_id after) = None \<and>
                 (\<forall>i<n. dict_get (active_contexts ((sleep prog ^^ i) stc)) (msg_id after) \<noteq> None) \<and>
                 st' = ensure_future (ActiveCleaner ctx) ((sleep prog ^^ n) stc))) \<and>
         (edit_cleanup prog after flatctx st = None \<longleftrightarrow>
            (\<forall>n. dict_get (active_contexts ((sleep prog ^^ n) stc)) (msg_id after) \<noteq> None)) \<and>
         snd (active_command_response_cleaner prog ctx s)
           = s\<lparr>api_calls := api_calls s @
                 (if ctx_guild (context_store s ctx) \<noteq> None \<and>
                     manage_messages prog (ctx_ch (context_store s ctx))
                  then [BulkDelete (ctx_ch (context_store s ctx))
                          (ctx_sent_messages (context_store s ctx))]
                  else map DeleteMessage (ctx_sent_messages (context_store s ctx)))\<rparr>"
proof -
  let ?gone = "\<lambda>n. dict_get (active_contexts ((sleep prog ^^ n) stc)) (msg_id after) = None"
  have ec: "edit_cleanup prog after flatctx st
              = map_option (ensure_future (ActiveCleaner ctx)) (wait_removed prog (msg_id after) stc)"
    using clean act tasks by (simp add: edit_cleanup_def stc_def)
  have some: "edit_cleanup prog after flatctx st = Some st' \<longleftrightarrow>
            (\<exists>n. ?gone n \<and> (\<forall>i<n. \<not> ?gone i) \<and>
                 st' = ensure_future (ActiveCleaner ctx) ((sleep prog ^^ n) stc))" for st'
  proof
    assume "edit_cleanup prog after flatctx st = Some st'"
    then obtain w where w: "wait_removed prog (msg_id after) stc = Some w"
      "st' = ensure_future (ActiveCleaner ctx) w" using ec by auto
    from wait_removed_Some[OF w(1)] obtain n where
      "?gone n" "\<forall>i<n. \<not> ?gone i" "w = (sleep prog ^^ n) stc" by (elim exE conjE)
    then show "\<exists>n. ?gone n \<and> (\<forall>i<n. \<not> ?gone i) \<and>
                 st' = ensure_future (ActiveCleaner ctx) ((sleep prog ^^ n) stc)"
      using w(2) by (intro exI[of _ n]) simp
  next
    assume "\<exists>n. ?gone n \<and> (\<forall>i<n. \<not> ?gone i) \<and>
                 st' = ensure_future (ActiveCleaner ctx) ((sleep prog ^^ n) stc)"
    then obtain n where n: "?gone n" "\<forall>i<n. \<not> ?gone i"
      "st' = ensure_future (ActiveCleaner ctx) ((sleep prog ^^ n) stc)" by (elim exE conjE)
    have "wait_removed prog (msg_id after) stc = Some ((sleep prog ^^ n) stc)"
      using n(1,2) by (rule wait_removed_funpow)
    then show "edit_cleanup prog after flatctx st = Some st'" using ec n(3) by simp
  qed
  have none: "edit_cleanup prog after flatctx st = None \<longleftrightarrow> (\<forall>n. \<not> ?gone n)"
  proof
    assume e: "edit_cleanup prog after flatctx st = None"
    show "\<forall>n. \<not> ?gone n"
    proof (rule ccontr)
      assume "\<not> (\<forall>n. \<not> ?gone n)"
      then obtain m where m: "?gone m" by auto
      define n where "n = (LEAST k. ?gone k)"
      have g: "?gone n" unfolding n_def using m by (rule LeastI)
      have l: "\<forall>i<n. \<not> ?gone i" unfolding n_def using not_less_Least by blast
      have "wait_removed prog (msg_id after) stc = Some ((sleep prog ^^ n) stc)"
        using g l by (rule wait_removed_funpow)
      then show False using e ec by simp
    qed
  next
    assume a: "\<forall>n. \<not> ?gone n"
    show "edit_cleanup prog after flatctx st = None"
    proof (cases "edit_cleanup prog after flatctx st")
      case None
      then show ?thesis .
    next
      case (Some x)
      then show ?thesis using some[of x] a by blast
    qed
  qed
  show ?thesis
    by (intro conjI) (rule some, rule none, rule active_cleaner_state)
qed

theorem edit_cleanup_cancels_then_waits_witness:
  "flat_cleanup_on_edit demo_initial_flat \<and>
   dict_get (active_contexts demo_active) (msg_id demo_edited) = Some 0 \<and>
   ctx_tasks (context_store demo_active 0) \<noteq> [] \<and>
   edit_cleanup finishing_program demo_edited demo_initial_flat demo_active = Some demo_once \<and>
   cancelled demo_once = [0] \<and>
   snd (active_command_response_cleaner finishing_program 0 demo_once)
     = demo_once\<lparr>api_calls := [BulkDelete 5 [10, 11]]\<rparr>"
proof -
  have h: "flat_cleanup_on_edit demo_initial_flat"
    "dict_get (active_contexts demo_active) (msg_id demo_edited) = Some 0"
    "ctx_tasks (context_store demo_active 0) \<noteq> []"
    by (simp_all add: demo_active_facts dict_get_def)
  note inst = edit_cleanup_cancels_then_waits[OF h, where prog = finishing_program
      and st' = demo_once and s = demo_once]
  let ?stc = "demo_active\<lparr>cancelled := cancelled demo_active
                                  @ ctx_tasks (context_store demo_active 0)\<rparr>"
  have stc: "?stc = demo_active\<lparr>cancelled := [0]\<rparr>" by (simp add: demo_active_facts)
  have "dict_get (active_contexts ((sleep finishing_program ^^ 1) ?stc)) (msg_id demo_edited) = None \<and>
        (\<forall>i<1. dict_get (active_contexts ((sleep finishing_program ^^ i) ?stc)) (msg_id demo_edited)
                  \<noteq> None) \<and>
        demo_once = ensure_future (ActiveCleaner 0) ((sleep finishing_program ^^ 1) ?stc)"
    unfolding stc
    by (simp add: finishing_program_def demo_program_def dict_get_def demo_active_facts
        demo_once_def)
  then have "\<exists>n. dict_get (active_contexts ((sleep finishing_program ^^ n) ?stc)) (msg_id demo_edited) = None \<and>
        (\<forall>i<n. dict_get (active_contexts ((sleep finishing_program ^^ i) ?stc)) (msg_id demo_edited)
                  \<noteq> None) \<and>
        demo_once = ensure_future (ActiveCleaner 0) ((sleep finishing_program ^^ n) ?stc)"
    by (rule exI[of _ 1])
  then have e: "edit_cleanup finishing_program demo_edited demo_initial_flat demo_active
                  = Some demo_once"
    using inst by blast
  have "snd (active_command_response_cleaner finishing_program 0 demo_once)
     = demo_once\<lparr>api_calls := [BulkDelete 5 [10, 11]]\<rparr>"
    using inst by (simp add: demo_once_facts finishing_program_def demo_program_def)
  then show ?thesis using h e demo_once_facts(3) by simp
qed

end
